theory Spec2Isabelle
  imports Main "HOL-Library.Sublist"
begin

section \<open>oobabot: the Discord client (discord\_bot.py)\<close>

text \<open>
  A shallow embedding of \<^verbatim>\<open>src/oobabot/discord_bot.py\<close>. Python strings are
  \<open>string\<close>, identifiers (snowflakes) are \<open>int\<close>, \<open>None\<close> is \<open>None\<close>, an exception is a
  value of type \<open>exception\<close>. Diagnostic output (\<^verbatim>\<open>get_logger()\<close>, \<^verbatim>\<open>print\<close>) has no
  influence on control flow and is left out.
\<close>

subsection \<open>Sanitization\<close>

text \<open>\<^verbatim>\<open>FORBIDDEN_CHARACTERS = r"[\n\r\t]"\<close>: newline, carriage return, tab.\<close>

definition FORBIDDEN_CHARACTERS :: "char set" where
  "FORBIDDEN_CHARACTERS = {CHR 0x0A, CHR 0x0D, CHR 0x09}"

text \<open>
  \<^verbatim>\<open>FORBIDDEN_CHARACTERS_PATTERN.sub(" ", raw_string)\<close>: the pattern is a character
  class, so every match is one character, and each is replaced by one space.
\<close>

definition sanitize_string :: "string \<Rightarrow> string" where
  "sanitize_string raw_string =
     map (\<lambda>c. if c \<in> FORBIDDEN_CHARACTERS then CHR '' '' else c) raw_string"

subsection \<open>Platform data (discord.py objects, as far as the bot reads them)\<close>

datatype exception = Exception string

datatype channel_type =
  DMChannel | TextChannel | GroupChannel | Thread
  | VoiceChannel | StageChannel | PartialMessageable

record discord_channel =
  ch_id :: int
  ch_name :: string
  ch_type :: channel_type

datatype author_type = User | Member

record discord_author =
  user_id :: int
  user_name :: string
  user_bot :: bool
  user_type :: author_type

text \<open>
  A \<^verbatim>\<open>discord.Message\<close>. \<^verbatim>\<open>reference\<close> is \<open>None\<close> or a \<^verbatim>\<open>MessageReference\<close>, whose
  \<^verbatim>\<open>resolved\<close> is \<open>None\<close>, a message, or a \<^verbatim>\<open>DeletedReferencedMessage\<close>.
  \<^verbatim>\<open>created_at.timestamp()\<close> is kept as an opaque number.
\<close>

datatype discord_message =
  Message (msg_id: int) (msg_author: discord_author) (msg_content: string)
    (msg_created_at: int) (msg_channel: discord_channel)
    (msg_mentions: "discord_author list") (msg_reference: "message_reference option")
and message_reference =
  MessageReference (resolved: "resolved_reference option")
and resolved_reference =
  ResolvedMessage discord_message | DeletedReferencedMessage

record permissions =
  create_public_threads :: bool

subsection \<open>Generic messages\<close>

text \<open>
  Modelled from the spec: \<^verbatim>\<open>oobabot.types\<close> (\<^verbatim>\<open>GenericMessage\<close>, \<^verbatim>\<open>DirectMessage\<close>,
  \<^verbatim>\<open>ChannelMessage\<close>) is imported by the source and not part of it. The fields are the
  keyword arguments the source passes to the constructors; a \<^verbatim>\<open>ChannelMessage\<close> carries
  a channel id and the mentioned user ids in addition.
\<close>

record generic_args =
  author_id :: int
  author_name :: string
  message_id :: int
  body_text :: string
  author_is_bot :: bool
  send_timestamp :: int

datatype generic_message =
  GenericMessage (args: generic_args)
  | DirectMessage (args: generic_args)
  | ChannelMessage (channel_id: int) (mentions: "int list") (args: generic_args)

definition isinstance_ChannelMessage :: "generic_message \<Rightarrow> bool" where
  "isinstance_ChannelMessage message =
     (case message of ChannelMessage _ _ _ \<Rightarrow> True | _ \<Rightarrow> False)"

text \<open>The assignment \<^verbatim>\<open>message.channel_id = v\<close> on a \<^verbatim>\<open>ChannelMessage\<close>.\<close>

fun set_channel_id :: "int \<Rightarrow> generic_message \<Rightarrow> generic_message" where
  "set_channel_id v (ChannelMessage c ms a) = ChannelMessage v ms a"
| "set_channel_id v (GenericMessage a) = GenericMessage a"
| "set_channel_id v (DirectMessage a) = DirectMessage a"

subsection \<open>The normalizer\<close>

definition discord_message_to_generic_message :: "discord_message \<Rightarrow> generic_message" where
  "discord_message_to_generic_message raw_message =
     (let generic_args = \<lparr>
            author_id = user_id (msg_author raw_message),
            author_name = sanitize_string (user_name (msg_author raw_message)),
            message_id = msg_id raw_message,
            body_text = sanitize_string (msg_content raw_message),
            author_is_bot = user_bot (msg_author raw_message),
            send_timestamp = msg_created_at raw_message \<rparr>
      in if ch_type (msg_channel raw_message) = DMChannel then DirectMessage generic_args
         else if ch_type (msg_channel raw_message) = TextChannel
               \<or> ch_type (msg_channel raw_message) = GroupChannel
               \<or> ch_type (msg_channel raw_message) = Thread
         then ChannelMessage (ch_id (msg_channel raw_message))
                (map user_id (msg_mentions raw_message)) generic_args
         else GenericMessage generic_args)"

subsection \<open>Asynchronous iterators\<close>

text \<open>
  What an \<^verbatim>\<open>async for\<close> sees of an asynchronous iterator: the items it yields, and
  then either its normal end (\<open>None\<close>) or an exception raised in place of the next item.
  The iterators of the source are finite (a history of bounded length, the sentences of
  one generated reply).
\<close>

type_synonym 'a aiter = "'a list \<times> exception option"

subsection \<open>Collaborators and the trace of calls\<close>

text \<open>
  Modelled from the spec: the per-request handle that \<^verbatim>\<open>log_request_arrived\<close> returns
  (\<^verbatim>\<open>oobabot.response_stats\<close>, not part of the source). It is created for one prompt
  and \<^verbatim>\<open>log_response_part()\<close> increments its part counter.
\<close>

record response_stats =
  prompt :: string
  parts :: nat

definition log_response_part :: "response_stats \<Rightarrow> response_stats" where
  "log_response_part response_stats = response_stats\<lparr>parts := parts response_stats + 1\<rparr>"

text \<open>
  A scheduled task: the reply task that \<^verbatim>\<open>asyncio.create_task\<close> makes from the
  coroutine \<^verbatim>\<open>send_response_in_channel(message, raw_message, image_requested,
  response_channel)\<close>, or the task that \<^verbatim>\<open>generate_image\<close> returns. The \<^verbatim>\<open>message\<close>
  object is shared with the caller, so the reply task reads it when it runs.
\<close>

datatype task =
  ResponseTask discord_message bool discord_channel
  | ImageTask string discord_message discord_channel

text \<open>
  Every call the bot makes on a collaborator or on the platform is one event, with its
  arguments and, where the bot reads it, its outcome (\<open>Inl\<close>, or \<open>Some\<close> for a call
  without result, is the exception it raised).
\<close>

datatype event =
  ShouldReplyToMessage int generic_message
  | Typing discord_channel "exception option"
  | MaybeGetImagePrompt discord_message
  | CreateThread discord_message string "exception + discord_channel"
  | CreateTask discord_channel
  | LogMention generic_message
  | GenerateImage string discord_message discord_channel "exception option"
  | Wait "task list"
  | GetThrottleMessageId int
  | Generate int "generic_message aiter" bool "int option" "exception + string"
  | LogRequestArrived string
  | RequestAsString string
  | RequestBySentence string
  | Next "exception + string option"
  | Send discord_channel string "exception + discord_message"
  | LogMessage int generic_message
  | LogResponsePart
  | LogResponseFailure
  | WriteToLog string
  | LogResponseSuccess response_stats

text \<open>
  The collaborators and the platform are parameters: what each call answers, given the
  calls made so far. The awaited, network-bound calls (typing indicator, thread creation,
  history, prompt assembly, generation, image generation, sending) may raise; the
  decision gate, the repetition tracker and the stats collector work in memory and
  return normally.
\<close>

record env =
  should_reply_to_message :: "event list \<Rightarrow> int \<Rightarrow> generic_message \<Rightarrow> bool \<times> bool"
  typing :: "event list \<Rightarrow> discord_channel \<Rightarrow> exception option"
  maybe_get_image_prompt :: "event list \<Rightarrow> discord_message \<Rightarrow> string option"
  permissions_for :: "event list \<Rightarrow> discord_channel \<Rightarrow> discord_author \<Rightarrow> permissions"
  create_thread :: "event list \<Rightarrow> discord_message \<Rightarrow> string \<Rightarrow> exception + discord_channel"
  generate_image ::
    "event list \<Rightarrow> string \<Rightarrow> discord_message \<Rightarrow> discord_channel \<Rightarrow> exception option"
  history :: "event list \<Rightarrow> discord_channel \<Rightarrow> discord_message aiter"
  get_throttle_message_id :: "event list \<Rightarrow> int \<Rightarrow> int option"
  generate ::
    "event list \<Rightarrow> int \<Rightarrow> generic_message aiter \<Rightarrow> bool \<Rightarrow> int option \<Rightarrow> exception + string"
  request_as_string :: "event list \<Rightarrow> string \<Rightarrow> string aiter"
  request_by_sentence :: "event list \<Rightarrow> string \<Rightarrow> string aiter"
  send :: "event list \<Rightarrow> discord_channel \<Rightarrow> string \<Rightarrow> exception + discord_message"

subsection \<open>The bot\<close>

record prompt_generator =
  bot_prompt_line :: string
  history_lines :: nat

text \<open>
  The fields of \<^verbatim>\<open>self\<close>, and the trace of the calls made so far (oldest first), which
  stands for the state of the collaborators.
\<close>

record discord_bot =
  prompt_generator :: prompt_generator
  ai_name :: string
  persona :: string
  ai_user_id :: int
  image_generator :: "unit option"
  ignore_dms :: bool
  dont_split_responses :: bool
  reply_in_thread :: bool
  log_all_the_things :: bool
  channel_last_direct_response :: "int \<rightharpoonup> int"
  trace :: "event list"

definition called :: "event \<Rightarrow> discord_bot \<Rightarrow> discord_bot" where
  "called e self = self\<lparr>trace := trace self @ [e]\<rparr>"

text \<open>\<^verbatim>\<open>DiscordBot.__init__\<close>\<close>

definition init ::
  "prompt_generator \<Rightarrow> unit option \<Rightarrow> string \<Rightarrow> string \<Rightarrow> bool \<Rightarrow> bool \<Rightarrow> bool \<Rightarrow> bool
   \<Rightarrow> discord_bot" where
  "init prompt_generator' image_generator' ai_name' persona' ignore_dms'
        dont_split_responses' reply_in_thread' log_all_the_things' =
     \<lparr> prompt_generator = prompt_generator',
       ai_name = ai_name',
       persona = persona',
       ai_user_id = - 1,
       image_generator = image_generator',
       ignore_dms = ignore_dms',
       dont_split_responses = dont_split_responses',
       reply_in_thread = reply_in_thread',
       log_all_the_things = log_all_the_things',
       channel_last_direct_response = Map.empty,
       trace = [] \<rparr>"

text \<open>\<^verbatim>\<open>DiscordBot.on_ready\<close>: apart from logging, it stores the bot's own user id.\<close>

definition on_ready :: "discord_author option \<Rightarrow> discord_bot \<Rightarrow> discord_bot" where
  "on_ready user self =
     (case user of Some u \<Rightarrow> self\<lparr>ai_user_id := user_id u\<rparr> | None \<Rightarrow> self)"

subsection \<open>History assembly\<close>

text \<open>
  The \<^verbatim>\<open>async for item in aiter\<close> loop of \<^verbatim>\<open>history_plus_thread_kickoff_message\<close>:
  it counts the items, remembers the last one and yields each item normalized.
\<close>

fun history_loop ::
  "discord_message list \<Rightarrow> nat \<Rightarrow> discord_message option \<Rightarrow> generic_message list
   \<Rightarrow> nat \<times> discord_message option \<times> generic_message list" where
  "history_loop [] items last_returned yielded = (items, last_returned, yielded)"
| "history_loop (item # rest) items last_returned yielded =
     history_loop rest (items + 1) (Some item)
       (yielded @ [discord_message_to_generic_message item])"

definition history_plus_thread_kickoff_message ::
  "discord_message aiter \<Rightarrow> nat \<Rightarrow> generic_message aiter" where
  "history_plus_thread_kickoff_message aiter limit =
     (case aiter of (stream, raised) \<Rightarrow>
       (case history_loop stream 0 None [] of (items, last_returned, yielded) \<Rightarrow>
         (case raised of
            Some err \<Rightarrow> (yielded, Some err)
          | None \<Rightarrow>
              (case last_returned of
                 None \<Rightarrow> (yielded, None)
               | Some last_msg \<Rightarrow>
                   if items < limit then
                     (case msg_reference last_msg of
                        None \<Rightarrow> (yielded, None)
                      | Some reference \<Rightarrow>
                          (case resolved reference of
                             Some (ResolvedMessage ref) \<Rightarrow>
                               (yielded @ [discord_message_to_generic_message ref], None)
                           | _ \<Rightarrow> (yielded, None)))
                   else (yielded, None)))))"

text \<open>
  \<^verbatim>\<open>channel.history(limit=n)\<close> of discord.py yields at most \<open>n\<close> messages of the
  channel, newest first; \<open>history env\<close> is what the platform holds for the channel.
\<close>

definition channel_history ::
  "env \<Rightarrow> event list \<Rightarrow> discord_channel \<Rightarrow> nat \<Rightarrow> discord_message aiter" where
  "channel_history env tr channel limit =
     (case history env tr channel of (stream, raised) \<Rightarrow>
        if limit \<le> length stream then (take limit stream, None) else (stream, raised))"

definition recent_messages_following_thread ::
  "env \<Rightarrow> discord_channel \<Rightarrow> discord_bot \<Rightarrow> generic_message aiter" where
  "recent_messages_following_thread env channel self =
     (let history = channel_history env (trace self) channel
                      (history_lines (prompt_generator self));
          result = history_plus_thread_kickoff_message history
                      (history_lines (prompt_generator self))
      in result)"

subsection \<open>Sending the reply\<close>

text \<open>\<^verbatim>\<open>sentence.endswith(suffix)\<close>\<close>

definition endswith :: "string \<Rightarrow> string \<Rightarrow> bool" where
  "endswith sentence ending =
     (length ending \<le> length sentence
      \<and> drop (length sentence - length ending) sentence = ending)"

text \<open>
  The \<^verbatim>\<open>async for sentence in generator\<close> loop of \<^verbatim>\<open>send_response_in_channel\<close>, over
  the sentences the generator yields and its end. Each iteration asks the generator for
  its next item (the event \<open>Next\<close>: a sentence, the end, or an exception). The result is
  the exception that left the loop, if any, the stats handle and the bot.
\<close>

fun send_sentences ::
  "env \<Rightarrow> discord_message \<Rightarrow> discord_channel \<Rightarrow> string list \<Rightarrow> exception option
   \<Rightarrow> response_stats \<Rightarrow> discord_bot \<Rightarrow> exception option \<times> response_stats \<times> discord_bot" where
  "send_sentences env raw_message response_channel [] raised response_stats self =
     (raised, response_stats,
      called (Next (case raised of None \<Rightarrow> Inr None | Some err \<Rightarrow> Inl err)) self)"
| "send_sentences env raw_message response_channel (sentence # rest) raised response_stats self =
     (let self0 = called (Next (Inr (Some sentence))) self
      in if bot_prompt_line (prompt_generator self0) = sentence then
           send_sentences env raw_message response_channel rest raised response_stats self0
         else if endswith sentence '' says:'' then
           (None, response_stats, self0)
         else
           (case send env (trace self0) response_channel sentence of
              Inl err \<Rightarrow>
                (Some err, response_stats,
                 called (Send response_channel sentence (Inl err)) self0)
            | Inr response_message \<Rightarrow>
                let self1 = called (Send response_channel sentence (Inr response_message))
                              self0;
                    generic_response_message =
                      discord_message_to_generic_message response_message;
                    self2 = called (LogMessage (ch_id (msg_channel raw_message))
                                      generic_response_message) self1;
                    response_stats1 = log_response_part response_stats;
                    self3 = called LogResponsePart self2
                in send_sentences env raw_message response_channel rest raised
                     response_stats1 self3))"

text \<open>
  \<^verbatim>\<open>send_response_in_channel\<close>. The first component of the result is the exception
  that leaves the coroutine, if any (only prompt assembly is outside the \<^verbatim>\<open>try\<close>).
\<close>

definition send_response_in_channel ::
  "env \<Rightarrow> generic_message \<Rightarrow> discord_message \<Rightarrow> bool \<Rightarrow> discord_channel \<Rightarrow> discord_bot
   \<Rightarrow> exception option \<times> discord_bot" where
  "send_response_in_channel env message raw_message image_requested response_channel self =
     (let recent_messages = recent_messages_following_thread env response_channel self;
          repeated_id =
            get_throttle_message_id env (trace self) (ch_id (msg_channel raw_message));
          self1 = called (GetThrottleMessageId (ch_id (msg_channel raw_message))) self;
          generated = generate env (trace self1) (ai_user_id self1) recent_messages
                        image_requested repeated_id;
          self2 = called (Generate (ai_user_id self1) recent_messages image_requested
                            repeated_id generated) self1
      in (case generated of
            Inl err \<Rightarrow> (Some err, self2)
          | Inr prompt_prefix \<Rightarrow>
             (let response_stats = \<lparr>prompt = prompt_prefix, parts = 0\<rparr>;
                  self3 = called (LogRequestArrived prompt_prefix) self2;
                  generator =
                    (if dont_split_responses self3
                     then request_as_string env (trace self3) prompt_prefix
                     else request_by_sentence env (trace self3) prompt_prefix);
                  self4 = called (if dont_split_responses self3
                                  then RequestAsString prompt_prefix
                                  else RequestBySentence prompt_prefix) self3
              in (case send_sentences env raw_message response_channel
                         (fst generator) (snd generator) response_stats self4 of
                    (Some err, response_stats1, self5) \<Rightarrow>
                      (None, called LogResponseFailure self5)
                  | (None, response_stats1, self5) \<Rightarrow>
                      (None,
                       called (LogResponseSuccess response_stats1)
                         (called (WriteToLog (''Response to '' @ author_name (args message)
                                              @ '' done!  '')) self5))))))"

subsection \<open>Channel resolution\<close>

text \<open>\<^verbatim>\<open>send_response\<close>: \<open>Inl\<close> is an exception that leaves it.\<close>

definition send_response ::
  "env \<Rightarrow> generic_message \<Rightarrow> discord_message \<Rightarrow> bool \<Rightarrow> discord_bot
   \<Rightarrow> (exception + task option \<times> discord_channel option) \<times> discord_bot" where
  "send_response env message raw_message image_requested self =
     (let spawn = (\<lambda>response_channel self'.
            (Inr (Some (ResponseTask raw_message image_requested response_channel),
                  Some response_channel),
             called (CreateTask response_channel) self'))
      in if reply_in_thread self
            \<and> ch_type (msg_channel raw_message) = TextChannel
            \<and> user_type (msg_author raw_message) = Member
         then
           (let perms = permissions_for env (trace self) (msg_channel raw_message)
                          (msg_author raw_message)
            in if create_public_threads perms then
                 (let name = ai_name self @ '': Response to ''
                               @ user_name (msg_author raw_message);
                      created = create_thread env (trace self) raw_message name;
                      self1 = called (CreateThread raw_message name created) self
                  in (case created of
                        Inl err \<Rightarrow> (Inl err, self1)
                      | Inr response_channel \<Rightarrow> spawn response_channel self1))
               else (Inr (None, None), self))
         else spawn (msg_channel raw_message) self)"

subsection \<open>The orchestrator\<close>

text \<open>
  Running a scheduled task to its end. An exception that leaves the reply coroutine
  stays in the task: \<^verbatim>\<open>asyncio.wait\<close> does not raise it. The calls of the image task
  belong to the image client and are not part of the trace.
\<close>

fun run_task :: "env \<Rightarrow> generic_message \<Rightarrow> task \<Rightarrow> discord_bot \<Rightarrow> discord_bot" where
  "run_task env message (ResponseTask raw_message image_requested response_channel) self =
     snd (send_response_in_channel env message raw_message image_requested
            response_channel self)"
| "run_task env message (ImageTask image_prompt raw_message response_channel) self = self"

fun run_tasks :: "env \<Rightarrow> generic_message \<Rightarrow> task list \<Rightarrow> discord_bot \<Rightarrow> discord_bot" where
  "run_tasks env message [] self = self"
| "run_tasks env message (t # ts) self = run_tasks env message ts (run_task env message t self)"

text \<open>
  \<^verbatim>\<open>on_message\<close>, up to the point where it waits for its tasks. The result is the
  \<^verbatim>\<open>message\<close> object as the handler leaves it, the exception the handler's \<^verbatim>\<open>except\<close>
  clause caught, if any, the tasks that are scheduled and still have to run (the ones
  given to \<^verbatim>\<open>asyncio.wait\<close>, or, when image generation raised before the wait, the
  reply task, which stays scheduled), and the bot. The model is in two parts.

  The second part of \<^verbatim>\<open>on_message\<close>, once the response channel is known (from
  ``log the mention'' to \<^verbatim>\<open>asyncio.wait\<close>):
\<close>

definition on_message_resolved ::
  "env \<Rightarrow> discord_message \<Rightarrow> generic_message \<Rightarrow> bool \<Rightarrow> string option \<Rightarrow> task option
   \<Rightarrow> discord_channel \<Rightarrow> discord_bot
   \<Rightarrow> generic_message \<times> exception option \<times> task list \<times> discord_bot" where
  "on_message_resolved env raw_message message is_summon image_prompt message_task
       response_channel self =
     (let log_it = (is_summon \<and> isinstance_ChannelMessage message);
          message1 =
            (if log_it \<and> ch_type response_channel = Thread
             then set_channel_id (ch_id response_channel) message
             else message);
          self1 = (if log_it then called (LogMention message1) self else self);
          image_step =
            (case image_prompt of
               None \<Rightarrow> (Inr None, self1)
             | Some the_prompt \<Rightarrow>
                 if image_generator self1 \<noteq> None then
                   (let image_raised = generate_image env (trace self1)
                          the_prompt raw_message response_channel;
                        self2 = called (GenerateImage the_prompt raw_message
                                  response_channel image_raised) self1
                    in (case image_raised of
                          Some err \<Rightarrow> (Inl err, self2)
                        | None \<Rightarrow>
                            (Inr (Some (ImageTask the_prompt raw_message response_channel)),
                             self2)))
                 else (Inr None, self1))
      in (case image_step of
            (Inl err, self2) \<Rightarrow>
              (message1, Some err, [t. Some t \<leftarrow> [message_task]], self2)
          | (Inr image_task, self2) \<Rightarrow>
             (let response_tasks = [t. Some t \<leftarrow> [message_task, image_task]];
                  self3 = called (Wait response_tasks) self2
              in (message1, None, response_tasks, self3))))"

text \<open>The first part of \<^verbatim>\<open>on_message\<close>, which ends in the second.\<close>

definition on_message ::
  "env \<Rightarrow> discord_message \<Rightarrow> discord_bot
   \<Rightarrow> generic_message \<times> exception option \<times> task list \<times> discord_bot" where
  "on_message env raw_message self =
     (let message = discord_message_to_generic_message raw_message;
          gate = should_reply_to_message env (trace self) (ai_user_id self) message;
          should_respond = fst gate;
          is_summon = snd gate;
          self1 = called (ShouldReplyToMessage (ai_user_id self) message) self
      in if \<not> should_respond then (message, None, [], self1)
         else
          (let entered = typing env (trace self1) (msg_channel raw_message);
               self2 = called (Typing (msg_channel raw_message) entered) self1
           in (case entered of
                 Some err \<Rightarrow> (message, Some err, [], self2)
               | None \<Rightarrow>
                  (let image_prompt =
                         (if image_generator self2 \<noteq> None
                          then maybe_get_image_prompt env (trace self2) raw_message
                          else None);
                       self3 = (if image_generator self2 \<noteq> None
                                then called (MaybeGetImagePrompt raw_message) self2
                                else self2)
                   in (case send_response env message raw_message
                               (image_prompt \<noteq> None) self3 of
                         (Inl err, self4) \<Rightarrow> (message, Some err, [], self4)
                       | (Inr (message_task, None), self4) \<Rightarrow> (message, None, [], self4)
                       | (Inr (message_task, Some response_channel), self4) \<Rightarrow>
                           on_message_resolved env raw_message message is_summon
                             image_prompt message_task response_channel self4)))))"

text \<open>
  What the event loop does with one message event: the handler, and then the tasks it
  scheduled, each to its end. The reply task is created before the handler's next
  suspension point, so none of its calls comes before the handler's calls up to there;
  tasks are run one after the other.
\<close>

definition handle_message ::
  "env \<Rightarrow> discord_message \<Rightarrow> discord_bot
   \<Rightarrow> generic_message \<times> exception option \<times> discord_bot" where
  "handle_message env raw_message self =
     (case on_message env raw_message self of
        (message, caught, tasks, self') \<Rightarrow>
          (message, caught, run_tasks env message tasks self'))"

section \<open>Observing a run\<close>

text \<open>The calls made between two states of the bot.\<close>

definition events_since :: "discord_bot \<Rightarrow> discord_bot \<Rightarrow> event list" where
  "events_since self self' = drop (length (trace self)) (trace self')"

text \<open>What a list of events says about the reply: the sentences the generator yielded, the
  sentences passed to \<^verbatim>\<open>send\<close>, the platform messages that came back, and the exceptions
  raised inside the \<^verbatim>\<open>try\<close> block (by the generator or by \<^verbatim>\<open>send\<close>).\<close>

definition yielded_sentences :: "event list \<Rightarrow> string list" where
  "yielded_sentences evs = [sentence. Next (Inr (Some sentence)) \<leftarrow> evs]"

definition sent_sentences :: "event list \<Rightarrow> string list" where
  "sent_sentences evs = [sentence. Send ch sentence r \<leftarrow> evs]"

definition sent_messages :: "event list \<Rightarrow> discord_message list" where
  "sent_messages evs = [m. Send ch sentence (Inr m) \<leftarrow> evs]"

fun failure_of :: "event \<Rightarrow> exception list" where
  "failure_of (Send ch sentence (Inl err)) = [err]"
| "failure_of (Next (Inl err)) = [err]"
| "failure_of e = []"

definition failures :: "event list \<Rightarrow> exception list" where
  "failures evs = concat (map failure_of evs)"

text \<open>
  The filter rules in the spec's words, to compare the loop with. A sentence passes when
  it is the marker, or does not end in \<^verbatim>\<open>" says:"\<close>; the first sentence that does not pass
  stops the reply. \<open>consumed\<close> are the sentences taken from the generator (up to and
  including the stopping one), \<open>accepted\<close> the ones to send (the marker dropped).
\<close>

definition passes :: "string \<Rightarrow> string \<Rightarrow> bool" where
  "passes marker sentence = (sentence = marker \<or> \<not> endswith sentence '' says:'')"

definition consumed :: "string \<Rightarrow> string list \<Rightarrow> string list" where
  "consumed marker sentences =
     takeWhile (passes marker) sentences @ take 1 (dropWhile (passes marker) sentences)"

definition accepted :: "string \<Rightarrow> string list \<Rightarrow> string list" where
  "accepted marker sentences =
     filter (\<lambda>s. s \<noteq> marker) (takeWhile (passes marker) sentences)"

text \<open>
  The shape of the events of one run of the loop: per sentence a \<open>Next\<close>, and for a sentence
  that is sent, the \<^verbatim>\<open>send\<close>, the \<^verbatim>\<open>log_message\<close> under the origin channel id and the
  \<^verbatim>\<open>log_response_part\<close>.
\<close>

inductive loop_events :: "string \<Rightarrow> int \<Rightarrow> discord_channel \<Rightarrow> event list \<Rightarrow> bool"
  for marker :: string and origin :: int and ch :: discord_channel where
  loop_end: "loop_events marker origin ch [Next (Inr None)]"
| loop_raised: "loop_events marker origin ch [Next (Inl err)]"
| loop_skipped: "loop_events marker origin ch rest \<Longrightarrow>
     loop_events marker origin ch (Next (Inr (Some marker)) # rest)"
| loop_aborted: "sentence \<noteq> marker \<Longrightarrow> endswith sentence '' says:'' \<Longrightarrow>
     loop_events marker origin ch [Next (Inr (Some sentence))]"
| loop_failed: "sentence \<noteq> marker \<Longrightarrow> \<not> endswith sentence '' says:'' \<Longrightarrow>
     loop_events marker origin ch [Next (Inr (Some sentence)), Send ch sentence (Inl err)]"
| loop_sent: "sentence \<noteq> marker \<Longrightarrow> \<not> endswith sentence '' says:'' \<Longrightarrow>
     loop_events marker origin ch rest \<Longrightarrow>
     loop_events marker origin ch
       (Next (Inr (Some sentence)) # Send ch sentence (Inr m)
          # LogMessage origin (discord_message_to_generic_message m)
          # LogResponsePart # rest)"

text \<open>The calls that report the end of a response to the stats collector.\<close>

fun is_report :: "event \<Rightarrow> bool" where
  "is_report LogResponseFailure = True"
| "is_report (LogResponseSuccess response_stats) = True"
| "is_report e = False"

definition reports :: "event list \<Rightarrow> event list" where
  "reports evs = filter is_report evs"

text \<open>
  In the spec's words: the message that the last message of a history stream replies to,
  when there is a last message, it is a reply, and the reference resolves to a concrete
  message.
\<close>

definition thread_kickoff :: "discord_message list \<Rightarrow> discord_message option" where
  "thread_kickoff stream =
     (if stream = [] then None
      else (case msg_reference (last stream) of
              Some (MessageReference (Some (ResolvedMessage ref))) \<Rightarrow> Some ref
            | _ \<Rightarrow> None))"

text \<open>
  The condition under which \<^verbatim>\<open>send_response\<close> wants a thread, and the name it gives
  the thread.
\<close>

definition wants_thread :: "discord_message \<Rightarrow> discord_bot \<Rightarrow> bool" where
  "wants_thread raw_message self =
     (reply_in_thread self
      \<and> ch_type (msg_channel raw_message) = TextChannel
      \<and> user_type (msg_author raw_message) = Member)"

definition thread_name :: "discord_message \<Rightarrow> discord_bot \<Rightarrow> string" where
  "thread_name raw_message self =
     ai_name self @ '': Response to '' @ user_name (msg_author raw_message)"

fun is_create_thread :: "event \<Rightarrow> bool" where
  "is_create_thread (CreateThread raw_message name created) = True"
| "is_create_thread e = False"

text \<open>The calls made by the handler itself, before any task runs.\<close>

fun is_handler_event :: "event \<Rightarrow> bool" where
  "is_handler_event (ShouldReplyToMessage uid message) = True"
| "is_handler_event (Typing channel entered) = True"
| "is_handler_event (MaybeGetImagePrompt raw_message) = True"
| "is_handler_event (CreateThread raw_message name created) = True"
| "is_handler_event (CreateTask channel) = True"
| "is_handler_event (LogMention message) = True"
| "is_handler_event (GenerateImage image_prompt raw_message channel image_raised) = True"
| "is_handler_event (Wait tasks) = True"
| "is_handler_event e = False"

fun is_log_mention :: "event \<Rightarrow> bool" where
  "is_log_mention (LogMention message) = True"
| "is_log_mention e = False"

fun task_channel :: "task \<Rightarrow> discord_channel" where
  "task_channel (ResponseTask raw_message image_requested response_channel) = response_channel"
| "task_channel (ImageTask image_prompt raw_message response_channel) = response_channel"

text \<open>The calls of the handler before it resolves the channel.\<close>

fun is_gate_event :: "event \<Rightarrow> bool" where
  "is_gate_event (ShouldReplyToMessage uid message) = True"
| "is_gate_event (Typing channel entered) = True"
| "is_gate_event (MaybeGetImagePrompt raw_message) = True"
| "is_gate_event e = False"

section \<open>A concrete platform, for running the model\<close>

definition example_channel :: discord_channel where
  "example_channel = \<lparr>ch_id = 10, ch_name = ''general'', ch_type = TextChannel\<rparr>"

definition example_thread :: discord_channel where
  "example_thread = \<lparr>ch_id = 77, ch_name = ''Rosie: Response to ann'', ch_type = Thread\<rparr>"

definition example_author :: discord_author where
  "example_author = \<lparr>user_id = 5, user_name = ''ann'', user_bot = False, user_type = Member\<rparr>"

definition example_bot_user :: discord_author where
  "example_bot_user =
     \<lparr>user_id = 1, user_name = ''Rosie'', user_bot = True, user_type = Member\<rparr>"

definition example_raw :: discord_message where
  "example_raw = Message 100 example_author ''hi Rosie'' 0 example_channel [] None"

text \<open>
  A platform on which every call succeeds: the gate answers with a summon, the author may
  or may not create threads, the generator yields the given sentences, and a sent message
  gets an id that depends on the calls made so far.
\<close>

definition example_env :: "bool \<Rightarrow> string list \<Rightarrow> env" where
  "example_env may_thread sentences = \<lparr>
     should_reply_to_message = (\<lambda>tr uid m. (True, True)),
     typing = (\<lambda>tr ch. None),
     maybe_get_image_prompt = (\<lambda>tr m. None),
     permissions_for = (\<lambda>tr ch a. \<lparr>create_public_threads = may_thread\<rparr>),
     create_thread = (\<lambda>tr m name. Inr example_thread),
     generate_image = (\<lambda>tr p m ch. None),
     history = (\<lambda>tr ch. ([], None)),
     get_throttle_message_id = (\<lambda>tr cid. None),
     generate = (\<lambda>tr uid h img thr. Inr ''prompt''),
     request_as_string = (\<lambda>tr p. ([concat sentences], None)),
     request_by_sentence = (\<lambda>tr p. (sentences, None)),
     send = (\<lambda>tr ch text.
       Inr (Message (200 + int (length tr)) example_bot_user text 1 ch [] None)) \<rparr>"

definition example_bot :: discord_bot where
  "example_bot =
     (init \<lparr>bot_prompt_line = ''Rosie says:'', history_lines = 7\<rparr> None ''Rosie''
        ''a friendly bot'' False False True False)\<lparr>ai_user_id := 1\<rparr>"

section \<open>Sanitization replaces forbidden characters one for one\<close>

text \<open>
  C9. For every input string, sanitization replaces each newline, carriage return and tab
  by exactly one space: the output has the length of the input, contains none of the three
  characters, and at every position holds a space where the input held a forbidden
  character and the input's own character elsewhere.
\<close>

theorem sanitize_string_one_for_one:
  "length (sanitize_string raw) = length raw
   \<and> set (sanitize_string raw) \<inter> {CHR 0x0A, CHR 0x0D, CHR 0x09} = {}
   \<and> (\<forall>i < length raw.
         sanitize_string raw ! i =
           (if raw ! i \<in> {CHR 0x0A, CHR 0x0D, CHR 0x09} then CHR '' '' else raw ! i))"
  by (auto simp: sanitize_string_def FORBIDDEN_CHARACTERS_def)

theorem sanitize_string_one_for_one_witness:
  "sanitize_string [CHR ''a'', CHR 0x0A, CHR 0x09, CHR ''b'', CHR 0x0D, CHR '' '']
     = ''a  b  ''
   \<and> sanitize_string [CHR ''a'', CHR 0x0A, CHR 0x09, CHR ''b'', CHR 0x0D, CHR '' ''] ! 1
     = CHR '' ''"
  using sanitize_string_one_for_one
          [of "[CHR ''a'', CHR 0x0A, CHR 0x09, CHR ''b'', CHR 0x0D, CHR '' '']"]
  by (simp add: sanitize_string_def FORBIDDEN_CHARACTERS_def)

section \<open>The sentence loop\<close>

lemma called_simps [simp]:
  "trace (called e self) = trace self @ [e]"
  "prompt_generator (called e self) = prompt_generator self"
  "ai_user_id (called e self) = ai_user_id self"
  "dont_split_responses (called e self) = dont_split_responses self"
  "reply_in_thread (called e self) = reply_in_thread self"
  "image_generator (called e self) = image_generator self"
  "ai_name (called e self) = ai_name self"
  "channel_last_direct_response (called e self) = channel_last_direct_response self"
  by (simp_all add: called_def)

lemma called_frame: "called e self = self\<lparr>trace := trace self @ [e]\<rparr>"
  by (simp add: called_def)

lemma yielded_sentences_simps [simp]:
  "yielded_sentences [] = []"
  "yielded_sentences (xs @ ys) = yielded_sentences xs @ yielded_sentences ys"
  "yielded_sentences (Next (Inr (Some s)) # xs) = s # yielded_sentences xs"
  "yielded_sentences (Next (Inr None) # xs) = yielded_sentences xs"
  "yielded_sentences (Next (Inl err) # xs) = yielded_sentences xs"
  "yielded_sentences (Send ch s r # xs) = yielded_sentences xs"
  "yielded_sentences (LogMessage k g # xs) = yielded_sentences xs"
  "yielded_sentences (LogResponsePart # xs) = yielded_sentences xs"
  by (simp_all add: yielded_sentences_def)

lemma sent_sentences_simps [simp]:
  "sent_sentences [] = []"
  "sent_sentences (xs @ ys) = sent_sentences xs @ sent_sentences ys"
  "sent_sentences (Send ch s r # xs) = s # sent_sentences xs"
  "sent_sentences (Next n # xs) = sent_sentences xs"
  "sent_sentences (LogMessage k g # xs) = sent_sentences xs"
  "sent_sentences (LogResponsePart # xs) = sent_sentences xs"
  by (simp_all add: sent_sentences_def)

lemma sent_messages_simps [simp]:
  "sent_messages [] = []"
  "sent_messages (xs @ ys) = sent_messages xs @ sent_messages ys"
  "sent_messages (Send ch s (Inr m) # xs) = m # sent_messages xs"
  "sent_messages (Send ch s (Inl err) # xs) = sent_messages xs"
  "sent_messages (Next n # xs) = sent_messages xs"
  "sent_messages (LogMessage k g # xs) = sent_messages xs"
  "sent_messages (LogResponsePart # xs) = sent_messages xs"
  by (simp_all add: sent_messages_def)

lemma failures_simps [simp]:
  "failures [] = []"
  "failures (xs @ ys) = failures xs @ failures ys"
  "failures (e # xs) = failure_of e @ failures xs"
  by (simp_all add: failures_def)

lemma passes_simps [simp]:
  "passes marker marker"
  "s \<noteq> marker \<Longrightarrow> passes marker s = (\<not> endswith s '' says:'')"
  by (simp_all add: passes_def)

lemma accepted_simps [simp]:
  "accepted marker [] = []"
  "accepted marker (marker # rest) = accepted marker rest"
  "s \<noteq> marker \<Longrightarrow> endswith s '' says:'' \<Longrightarrow> accepted marker (s # rest) = []"
  "s \<noteq> marker \<Longrightarrow> \<not> endswith s '' says:'' \<Longrightarrow>
     accepted marker (s # rest) = s # accepted marker rest"
  by (simp_all add: accepted_def)

lemma consumed_simps [simp]:
  "consumed marker [] = []"
  "consumed marker (marker # rest) = marker # consumed marker rest"
  "s \<noteq> marker \<Longrightarrow> endswith s '' says:'' \<Longrightarrow> consumed marker (s # rest) = [s]"
  "s \<noteq> marker \<Longrightarrow> \<not> endswith s '' says:'' \<Longrightarrow>
     consumed marker (s # rest) = s # consumed marker rest"
  by (simp_all add: consumed_def)


lemma send_sentences_run:
  assumes "bot_prompt_line (prompt_generator self) = marker"
  shows "\<exists>evs.
      snd (snd (send_sentences env raw ch sentences raised rs self))
        = self\<lparr>trace := trace self @ evs\<rparr>
    \<and> loop_events marker (ch_id (msg_channel raw)) ch evs
    \<and> fst (snd (send_sentences env raw ch sentences raised rs self))
        = rs\<lparr>parts := parts rs + length (sent_messages evs)\<rparr>
    \<and> fst (send_sentences env raw ch sentences raised rs self)
        = (case failures evs of err # _ \<Rightarrow> Some err | [] \<Rightarrow> None)
    \<and> prefix (yielded_sentences evs) (consumed marker sentences)
    \<and> (failures evs = [] \<longrightarrow> yielded_sentences evs = consumed marker sentences)
    \<and> prefix (sent_sentences evs) (accepted marker sentences)
    \<and> (failures evs = [] \<longrightarrow> sent_sentences evs = accepted marker sentences)"
  using assms
proof (induction sentences arbitrary: rs self)
  case Nil
  show ?case
    by (rule exI [of _ "[Next (case raised of None \<Rightarrow> Inr None | Some err \<Rightarrow> Inl err)]"])
       (auto simp: loop_events.intros called_frame split: option.splits)
next
  case (Cons sentence rest)
  let ?self0 = "called (Next (Inr (Some sentence))) self"
  have marker0: "bot_prompt_line (prompt_generator ?self0) = marker"
    using Cons.prems by simp
  show ?case
  proof (cases "marker = sentence")
    case True
    let ?R = "send_sentences env raw ch rest raised rs ?self0"
    from Cons.IH [OF marker0, of rs]
    obtain evs where evs:
      "snd (snd ?R) = ?self0\<lparr>trace := trace ?self0 @ evs\<rparr>"
      "loop_events marker (ch_id (msg_channel raw)) ch evs"
      "fst (snd ?R) = rs\<lparr>parts := parts rs + length (sent_messages evs)\<rparr>"
      "fst ?R = (case failures evs of err # _ \<Rightarrow> Some err | [] \<Rightarrow> None)"
      "prefix (yielded_sentences evs) (consumed marker rest)"
      "failures evs = [] \<longrightarrow> yielded_sentences evs = consumed marker rest"
      "prefix (sent_sentences evs) (accepted marker rest)"
      "failures evs = [] \<longrightarrow> sent_sentences evs = accepted marker rest"
      by blast
    have step: "send_sentences env raw ch (sentence # rest) raised rs self = ?R"
      using True Cons.prems by (simp add: Let_def)
    show ?thesis
      unfolding step using evs True
      apply (intro exI [of _ "Next (Inr (Some sentence)) # evs"] conjI)
      subgoal by (simp add: called_frame)
      subgoal by (simp add: loop_events.intros)
      subgoal by simp
      subgoal by simp
      subgoal by simp
      subgoal by simp
      subgoal by simp
      subgoal by simp
      done
  next
    case marker: False
    show ?thesis
    proof (cases "endswith sentence '' says:''")
      case True
      with marker Cons.prems show ?thesis
        by (intro exI [of _ "[Next (Inr (Some sentence))]"])
           (simp add: loop_events.intros called_frame Let_def)
    next
      case False
      show ?thesis
      proof (cases "send env (trace ?self0) ch sentence")
        case (Inl err)
        with marker False Cons.prems show ?thesis
          by (intro exI [of _ "[Next (Inr (Some sentence)), Send ch sentence (Inl err)]"])
             (simp add: loop_events.intros called_frame Let_def)
      next
        case (Inr m)
        let ?new = "[Next (Inr (Some sentence)), Send ch sentence (Inr m),
                     LogMessage (ch_id (msg_channel raw)) (discord_message_to_generic_message m),
                     LogResponsePart]"
        let ?self3 = "called LogResponsePart
            (called (LogMessage (ch_id (msg_channel raw)) (discord_message_to_generic_message m))
              (called (Send ch sentence (Inr m)) ?self0))"
        let ?R = "send_sentences env raw ch rest raised (log_response_part rs) ?self3"
        have step: "send_sentences env raw ch (sentence # rest) raised rs self = ?R"
          using marker False Inr Cons.prems by (simp add: Let_def)
        have "bot_prompt_line (prompt_generator ?self3) = marker"
          using Cons.prems by simp
        from Cons.IH [OF this, of "log_response_part rs"]
        obtain evs where evs:
          "snd (snd ?R) = ?self3\<lparr>trace := trace ?self3 @ evs\<rparr>"
          "loop_events marker (ch_id (msg_channel raw)) ch evs"
          "fst (snd ?R) = (log_response_part rs)
              \<lparr>parts := parts (log_response_part rs) + length (sent_messages evs)\<rparr>"
          "fst ?R = (case failures evs of err # _ \<Rightarrow> Some err | [] \<Rightarrow> None)"
          "prefix (yielded_sentences evs) (consumed marker rest)"
          "failures evs = [] \<longrightarrow> yielded_sentences evs = consumed marker rest"
          "prefix (sent_sentences evs) (accepted marker rest)"
          "failures evs = [] \<longrightarrow> sent_sentences evs = accepted marker rest"
          by blast
        show ?thesis
          unfolding step
          using evs marker False
          apply (intro exI [of _ "?new @ evs"] conjI)
      subgoal by (simp add: called_frame)
      subgoal by (simp add: loop_events.intros)
      subgoal by (simp add: log_response_part_def)
      subgoal by simp
      subgoal by simp
      subgoal by simp
      subgoal by simp
      subgoal by simp
      done
      qed
    qed
  qed
qed


subsection \<open>What the shape of the loop's events gives\<close>

lemma loop_events_follow:
  assumes "loop_events marker origin ch evs" "i < length evs" "evs ! i = Send c s (Inr m)"
  shows "i + 2 < length evs
       \<and> evs ! (i + 1) = LogMessage origin (discord_message_to_generic_message m)
       \<and> evs ! (i + 2) = LogResponsePart"
  using assms
proof (induction arbitrary: i rule: loop_events.induct)
  case (loop_skipped rest)
  then show ?case by (cases i) auto
next
  case (loop_failed sentence err)
  then show ?case by (cases i) auto
next
  case (loop_sent sentence rest m')
  show ?case
  proof (cases "i < 4")
    case True
    then consider "i = 0" | "i = 1" | "i = 2" | "i = 3" by linarith
    then show ?thesis using loop_sent.prems by cases simp_all
  next
    case False
    then obtain j where j: "i = j + 4" by (metis add.commute le_Suc_ex not_less)
    with loop_sent.prems have "j < length rest" "rest ! j = Send c s (Inr m)" by simp_all
    from loop_sent.IH [OF this] show ?thesis using j by simp
  qed
qed auto

lemma loop_events_members:
  assumes "loop_events marker origin ch evs" "e \<in> set evs"
  shows "(\<exists>n. e = Next n) \<or> (\<exists>s r. e = Send ch s r) \<or> (\<exists>g. e = LogMessage origin g)
         \<or> e = LogResponsePart"
  using assms by (induction rule: loop_events.induct) auto

lemma loop_events_parts:
  assumes "loop_events marker origin ch evs"
  shows "length (filter (\<lambda>e. e = LogResponsePart) evs) = length (sent_messages evs)"
  using assms by (induction rule: loop_events.induct) auto

lemma loop_events_failures:
  assumes "loop_events marker origin ch evs"
  shows "length (failures evs) \<le> 1"
  using assms by (induction rule: loop_events.induct) auto


subsection \<open>The reply coroutine\<close>

lemma events_since_frame [simp]:
  "events_since self (self\<lparr>trace := trace self @ evs\<rparr>) = evs"
  by (simp add: events_since_def)

lemma send_response_in_channel_run:
  "\<exists>recent repeated_id generated.
     (\<forall>err. generated = Inl err \<longrightarrow>
        send_response_in_channel env message raw img ch self
          = (Some err,
             self\<lparr>trace := trace self @
               [GetThrottleMessageId (ch_id (msg_channel raw)),
                Generate (ai_user_id self) recent img repeated_id generated]\<rparr>))
   \<and> (\<forall>p. generated = Inr p \<longrightarrow>
        (\<exists>evs. loop_events (bot_prompt_line (prompt_generator self))
                 (ch_id (msg_channel raw)) ch evs
           \<and> send_response_in_channel env message raw img ch self
               = (None,
                  self\<lparr>trace := trace self @
                    [GetThrottleMessageId (ch_id (msg_channel raw)),
                     Generate (ai_user_id self) recent img repeated_id generated,
                     LogRequestArrived p,
                     if dont_split_responses self then RequestAsString p
                     else RequestBySentence p]
                    @ evs
                    @ (if failures evs = []
                       then [WriteToLog (''Response to '' @ author_name (args message)
                                         @ '' done!  ''),
                             LogResponseSuccess
                               \<lparr>prompt = p, parts = length (sent_messages evs)\<rparr>]
                       else [LogResponseFailure])\<rparr>)))"
proof -
  let ?origin = "ch_id (msg_channel raw)"
  let ?recent = "recent_messages_following_thread env ch self"
  let ?repeated = "get_throttle_message_id env (trace self) ?origin"
  let ?self1 = "called (GetThrottleMessageId ?origin) self"
  let ?generated = "generate env (trace ?self1) (ai_user_id ?self1) ?recent img ?repeated"
  let ?self2 = "called (Generate (ai_user_id ?self1) ?recent img ?repeated ?generated) ?self1"
  have failed: "send_response_in_channel env message raw img ch self
          = (Some err, self\<lparr>trace := trace self @
               [GetThrottleMessageId ?origin,
                Generate (ai_user_id self) ?recent img ?repeated ?generated]\<rparr>)"
    if "?generated = Inl err" for err
    using that by (simp add: send_response_in_channel_def Let_def called_frame)
  have ok: "\<exists>evs. loop_events (bot_prompt_line (prompt_generator self)) ?origin ch evs
           \<and> send_response_in_channel env message raw img ch self
               = (None,
                  self\<lparr>trace := trace self @
                    [GetThrottleMessageId ?origin,
                     Generate (ai_user_id self) ?recent img ?repeated ?generated,
                     LogRequestArrived p,
                     if dont_split_responses self then RequestAsString p
                     else RequestBySentence p]
                    @ evs
                    @ (if failures evs = []
                       then [WriteToLog (''Response to '' @ author_name (args message)
                                         @ '' done!  ''),
                             LogResponseSuccess
                               \<lparr>prompt = p, parts = length (sent_messages evs)\<rparr>]
                       else [LogResponseFailure])\<rparr>)"
    if gen: "?generated = Inr p" for p
  proof -
    let ?self3 = "called (LogRequestArrived p) ?self2"
    let ?generator = "if dont_split_responses ?self3
                      then request_as_string env (trace ?self3) p
                      else request_by_sentence env (trace ?self3) p"
    let ?self4 = "called (if dont_split_responses ?self3 then RequestAsString p
                          else RequestBySentence p) ?self3"
    let ?rs = "\<lparr>prompt = p, parts = 0\<rparr>"
    let ?L = "send_sentences env raw ch (fst ?generator) (snd ?generator) ?rs ?self4"
    have "bot_prompt_line (prompt_generator ?self4) = bot_prompt_line (prompt_generator self)"
      by simp
    from send_sentences_run [OF this, of env raw ch "fst ?generator" "snd ?generator" ?rs]
    obtain evs where evs:
      "snd (snd ?L) = ?self4\<lparr>trace := trace ?self4 @ evs\<rparr>"
      "loop_events (bot_prompt_line (prompt_generator self)) ?origin ch evs"
      "fst (snd ?L) = ?rs\<lparr>parts := parts ?rs + length (sent_messages evs)\<rparr>"
      "fst ?L = (case failures evs of err # _ \<Rightarrow> Some err | [] \<Rightarrow> None)"
      by blast
    have unfold: "send_response_in_channel env message raw img ch self =
       (case ?L of
          (Some err, response_stats1, self5) \<Rightarrow> (None, called LogResponseFailure self5)
        | (None, response_stats1, self5) \<Rightarrow>
            (None, called (LogResponseSuccess response_stats1)
               (called (WriteToLog (''Response to '' @ author_name (args message)
                                    @ '' done!  '')) self5)))"
      using gen by (simp add: send_response_in_channel_def Let_def)
    obtain outcome rs' self5 where L: "?L = (outcome, rs', self5)"
      by (cases ?L) auto
    from evs L have facts:
      "self5 = ?self4\<lparr>trace := trace ?self4 @ evs\<rparr>"
      "rs' = \<lparr>prompt = p, parts = length (sent_messages evs)\<rparr>"
      "outcome = (case failures evs of err # _ \<Rightarrow> Some err | [] \<Rightarrow> None)"
      by simp_all
    show ?thesis
    proof (cases "failures evs")
      case Nil
      with facts have "outcome = None" by simp
      with L unfold facts Nil evs(2) show ?thesis
        by (intro exI [of _ evs]) (simp add: called_frame)
    next
      case (Cons err errs)
      with facts have "outcome = Some err" by simp
      with L unfold facts Cons evs(2) show ?thesis
        by (intro exI [of _ evs]) (simp add: called_frame)
    qed
  qed
  show ?thesis
    using failed ok
    by (intro exI [of _ ?recent] exI [of _ ?repeated] exI [of _ ?generated]) blast
qed


section \<open>Filtering the generated sentences\<close>

lemma accepted_clean:
  "marker \<notin> set (accepted marker sentences)"
  "s \<in> set (accepted marker sentences) \<Longrightarrow> \<not> endswith s '' says:''"
proof -
  show "marker \<notin> set (accepted marker sentences)" by (simp add: accepted_def)
  assume "s \<in> set (accepted marker sentences)"
  then have "s \<noteq> marker" "s \<in> set (takeWhile (passes marker) sentences)"
    by (simp_all add: accepted_def)
  then have "passes marker s" by (meson set_takeWhileD)
  with \<open>s \<noteq> marker\<close> show "\<not> endswith s '' says:''" by (simp add: passes_def)
qed

text \<open>
  C2. For every list of sentences the generator yields, the loop applies the filters in
  this order. A sentence equal to the marker \<^verbatim>\<open>bot_prompt_line\<close> is not sent and the loop
  goes on with the next sentence. Any other sentence that ends in \<^verbatim>\<open>" says:"\<close> is not sent
  and ends the loop: no later sentence is taken from the generator or sent, and what was
  sent before stays sent. Every other sentence is passed to \<^verbatim>\<open>send\<close> once, in order. So
  the sentences taken from the generator are a prefix of \<open>consumed\<close> and the sentences sent
  a prefix of \<open>accepted\<close>, and they are all of them when no call raises; the marker and a
  sentence ending in \<^verbatim>\<open>" says:"\<close> are never sent.
\<close>

theorem fragment_filtering:
  fixes env raw ch sentences raised rs self
  defines "marker \<equiv> bot_prompt_line (prompt_generator self)"
  defines "evs \<equiv> events_since self
                   (snd (snd (send_sentences env raw ch sentences raised rs self)))"
  shows "prefix (yielded_sentences evs) (consumed marker sentences)
       \<and> prefix (sent_sentences evs) (accepted marker sentences)
       \<and> (failures evs = [] \<longrightarrow>
            yielded_sentences evs = consumed marker sentences
          \<and> sent_sentences evs = accepted marker sentences)
       \<and> marker \<notin> set (sent_sentences evs)
       \<and> (\<forall>s \<in> set (sent_sentences evs). \<not> endswith s '' says:'')"
proof -
  from send_sentences_run [of self marker env raw ch sentences raised rs]
  obtain evs' where run:
    "snd (snd (send_sentences env raw ch sentences raised rs self))
       = self\<lparr>trace := trace self @ evs'\<rparr>"
    "prefix (yielded_sentences evs') (consumed marker sentences)"
    "failures evs' = [] \<longrightarrow> yielded_sentences evs' = consumed marker sentences"
    "prefix (sent_sentences evs') (accepted marker sentences)"
    "failures evs' = [] \<longrightarrow> sent_sentences evs' = accepted marker sentences"
    unfolding marker_def by blast
  have evs: "evs = evs'" unfolding evs_def run(1) by simp
  have sub: "set (sent_sentences evs) \<subseteq> set (accepted marker sentences)"
    using run(4) evs by (simp add: set_mono_prefix)
  show ?thesis
    using run(2-5) sub accepted_clean [where marker = marker and sentences = sentences] unfolding evs by blast
qed

theorem fragment_filtering_witness:
  "sent_sentences (events_since example_bot (snd (snd
      (send_sentences
         (example_env True [''Hello.'', ''Rosie says:'', ''I am well.'', ''Narrator says:'', ''Bye.''])
         example_raw example_thread
         [''Hello.'', ''Rosie says:'', ''I am well.'', ''Narrator says:'', ''Bye.''] None
         \<lparr>prompt = ''prompt'', parts = 0\<rparr> example_bot))))
     = [''Hello.'', ''I am well.'']
   \<and> yielded_sentences (events_since example_bot (snd (snd
      (send_sentences
         (example_env True [''Hello.'', ''Rosie says:'', ''I am well.'', ''Narrator says:'', ''Bye.''])
         example_raw example_thread
         [''Hello.'', ''Rosie says:'', ''I am well.'', ''Narrator says:'', ''Bye.''] None
         \<lparr>prompt = ''prompt'', parts = 0\<rparr> example_bot))))
     = [''Hello.'', ''Rosie says:'', ''I am well.'', ''Narrator says:'']
   \<and> failures (events_since example_bot (snd (snd
      (send_sentences
         (example_env True [''Hello.'', ''Rosie says:'', ''I am well.'', ''Narrator says:'', ''Bye.''])
         example_raw example_thread
         [''Hello.'', ''Rosie says:'', ''I am well.'', ''Narrator says:'', ''Bye.''] None
         \<lparr>prompt = ''prompt'', parts = 0\<rparr> example_bot))))
     = []"
  using fragment_filtering
    [of "example_bot"
        "example_env True [''Hello.'', ''Rosie says:'', ''I am well.'', ''Narrator says:'', ''Bye.'']"
        example_raw example_thread
        "[''Hello.'', ''Rosie says:'', ''I am well.'', ''Narrator says:'', ''Bye.'']" None
        "\<lparr>prompt = ''prompt'', parts = 0\<rparr>"]
  by (simp add: example_bot_def example_env_def init_def endswith_def called_def
        events_since_def Let_def log_response_part_def)

lemma loop_events_no_reports:
  assumes "loop_events marker origin ch evs"
  shows "reports evs = []"
  using assms by (induction rule: loop_events.induct) (simp_all add: reports_def)

lemma loop_events_last_failure:
  assumes "loop_events marker origin ch evs" "failures evs \<noteq> []"
  shows "failure_of (last evs) = failures evs"
  using assms
proof (induction rule: loop_events.induct)
  case (loop_skipped rest)
  then have "rest \<noteq> []" by (cases rest) simp_all
  with loop_skipped show ?case by auto
next
  case (loop_sent sentence rest m)
  then have "rest \<noteq> []" by (cases rest) simp_all
  with loop_sent show ?case by auto
qed simp_all

lemma loop_events_nonempty:
  assumes "loop_events marker origin ch evs"
  shows "evs \<noteq> []"
  using assms by (induction rule: loop_events.induct) simp_all

lemma follow_embedded:
  assumes pre: "\<forall>e \<in> set pre. \<forall>c s r. e \<noteq> Send c s r"
      and post: "\<forall>e \<in> set post. \<forall>c s r. e \<noteq> Send c s r"
      and L: "loop_events marker origin ch L"
      and i: "i < length (pre @ L @ post)" "(pre @ L @ post) ! i = Send c s (Inr m)"
  shows "c = ch \<and> i + 2 < length (pre @ L @ post)
       \<and> (pre @ L @ post) ! (i + 1) = LogMessage origin (discord_message_to_generic_message m)
       \<and> (pre @ L @ post) ! (i + 2) = LogResponsePart"
proof -
  have ge: "length pre \<le> i"
  proof (rule ccontr)
    assume "\<not> length pre \<le> i"
    then have "i < length pre" by simp
    then have "pre ! i \<in> set pre" "(pre @ L @ post) ! i = pre ! i"
      by (simp_all add: nth_append)
    with pre i(2) show False by auto
  qed
  have lt: "i - length pre < length L"
  proof (rule ccontr)
    assume "\<not> i - length pre < length L"
    then have far: "length L \<le> i - length pre" by simp
    with ge i(1) have "i - length pre - length L < length post" by simp
    moreover from far ge have "(pre @ L @ post) ! i = post ! (i - length pre - length L)"
      by (simp add: nth_append)
    ultimately show False using post i(2) by (metis nth_mem)
  qed
  let ?j = "i - length pre"
  from ge lt i(2) have j: "L ! ?j = Send c s (Inr m)" by (simp add: nth_append)
  from loop_events_follow [OF L lt j]
  have f: "?j + 2 < length L"
    "L ! (?j + 1) = LogMessage origin (discord_message_to_generic_message m)"
    "L ! (?j + 2) = LogResponsePart" by simp_all
  from lt j have "Send c s (Inr m) \<in> set L" by (metis nth_mem)
  from loop_events_members [OF L this] have c: "c = ch" by auto
  have a1: "i + 1 = length pre + (?j + 1)" and a2: "i + 2 = length pre + (?j + 2)"
    using ge by simp_all
  have i1: "(pre @ L @ post) ! (i + 1) = L ! (?j + 1)"
    unfolding a1 nth_append_length_plus using f(1) by (simp add: nth_append)
  have i2: "(pre @ L @ post) ! (i + 2) = L ! (?j + 2)"
    unfolding a2 nth_append_length_plus using f(1) by (simp add: nth_append)
  show ?thesis using c f ge i1 i2 by simp
qed

lemma send_response_in_channel_events:
  obtains (prompt_failed) recent repeated_id err where
      "events_since self (snd (send_response_in_channel env message raw img ch self))
         = [GetThrottleMessageId (ch_id (msg_channel raw)),
            Generate (ai_user_id self) recent img repeated_id (Inl err)]"
  | (arrived) recent repeated_id p L where
      "loop_events (bot_prompt_line (prompt_generator self)) (ch_id (msg_channel raw)) ch L"
      "events_since self (snd (send_response_in_channel env message raw img ch self))
         = [GetThrottleMessageId (ch_id (msg_channel raw)),
            Generate (ai_user_id self) recent img repeated_id (Inr p),
            LogRequestArrived p,
            if dont_split_responses self then RequestAsString p else RequestBySentence p]
           @ L
           @ (if failures L = []
              then [WriteToLog (''Response to '' @ author_name (args message) @ '' done!  ''),
                    LogResponseSuccess \<lparr>prompt = p, parts = length (sent_messages L)\<rparr>]
              else [LogResponseFailure])"
proof -
  from send_response_in_channel_run [of env message raw img ch self]
  obtain recent repeated_id generated where run:
    "\<And>err. generated = Inl err \<Longrightarrow>
        send_response_in_channel env message raw img ch self
          = (Some err,
             self\<lparr>trace := trace self @
               [GetThrottleMessageId (ch_id (msg_channel raw)),
                Generate (ai_user_id self) recent img repeated_id generated]\<rparr>)"
    "\<And>p. generated = Inr p \<Longrightarrow>
        (\<exists>evs. loop_events (bot_prompt_line (prompt_generator self))
                 (ch_id (msg_channel raw)) ch evs
           \<and> send_response_in_channel env message raw img ch self
               = (None,
                  self\<lparr>trace := trace self @
                    [GetThrottleMessageId (ch_id (msg_channel raw)),
                     Generate (ai_user_id self) recent img repeated_id generated,
                     LogRequestArrived p,
                     if dont_split_responses self then RequestAsString p
                     else RequestBySentence p]
                    @ evs
                    @ (if failures evs = []
                       then [WriteToLog (''Response to '' @ author_name (args message)
                                         @ '' done!  ''),
                             LogResponseSuccess
                               \<lparr>prompt = p, parts = length (sent_messages evs)\<rparr>]
                       else [LogResponseFailure])\<rparr>))"
    by blast
  show thesis
  proof (cases generated)
    case (Inl err)
    from run(1) [OF Inl] show thesis
      by (intro prompt_failed [of recent repeated_id err]) (simp add: Inl)
  next
    case (Inr p)
    from run(2) [OF Inr] obtain L where L:
      "loop_events (bot_prompt_line (prompt_generator self)) (ch_id (msg_channel raw)) ch L"
      "send_response_in_channel env message raw img ch self
         = (None,
            self\<lparr>trace := trace self @
              [GetThrottleMessageId (ch_id (msg_channel raw)),
               Generate (ai_user_id self) recent img repeated_id generated,
               LogRequestArrived p,
               if dont_split_responses self then RequestAsString p
               else RequestBySentence p]
              @ L
              @ (if failures L = []
                 then [WriteToLog (''Response to '' @ author_name (args message)
                                   @ '' done!  ''),
                       LogResponseSuccess
                         \<lparr>prompt = p, parts = length (sent_messages L)\<rparr>]
                 else [LogResponseFailure])\<rparr>)"
      by blast
    show thesis
      by (rule arrived [of L recent repeated_id p, OF L(1)]) (simp add: L(2) Inr)
  qed
qed

lemma loop_events_no_arrival:
  assumes "loop_events marker origin ch evs"
  shows "LogRequestArrived p \<notin> set evs"
  using loop_events_members [OF assms, of "LogRequestArrived p"] by auto

lemma reports_simps [simp]:
  "reports [] = []"
  "reports (xs @ ys) = reports xs @ reports ys"
  "reports (e # xs) = (if is_report e then e # reports xs else reports xs)"
  by (simp_all add: reports_def)

lemma sent_messages_other [simp]:
  "sent_messages (GetThrottleMessageId k # xs) = sent_messages xs"
  "sent_messages (Generate a b c d e # xs) = sent_messages xs"
  "sent_messages (LogRequestArrived p # xs) = sent_messages xs"
  "sent_messages (RequestAsString p # xs) = sent_messages xs"
  "sent_messages (RequestBySentence p # xs) = sent_messages xs"
  "sent_messages (WriteToLog w # xs) = sent_messages xs"
  "sent_messages (LogResponseSuccess rs # xs) = sent_messages xs"
  "sent_messages (LogResponseFailure # xs) = sent_messages xs"
  by (simp_all add: sent_messages_def)

text \<open>
  C6. Once \<^verbatim>\<open>log_request_arrived\<close> was called for a message, the reply coroutine reports
  to the stats collector exactly once. When a call inside the \<^verbatim>\<open>try\<close> block raised
  (the generator, or \<^verbatim>\<open>send\<close>), the one report is \<^verbatim>\<open>log_response_failure\<close>, it is the
  last call, and the call before it is the one that raised: nothing is done in between.
  Otherwise, also when a sentence ending in \<^verbatim>\<open>" says:"\<close> stopped the loop, the one report
  is \<^verbatim>\<open>log_response_success\<close> with the handle of this request, whose part counter is the
  number of messages sent, and it is the last call.
\<close>

theorem exactly_one_report:
  fixes env message raw img ch self p
  defines "evs \<equiv> events_since self (snd (send_response_in_channel env message raw img ch self))"
  assumes was_called: "LogRequestArrived p \<in> set evs"
  shows "length (reports evs) = 1
       \<and> (failures evs \<noteq> [] \<longrightarrow>
            reports evs = [LogResponseFailure]
          \<and> last evs = LogResponseFailure
          \<and> failure_of (last (butlast evs)) = failures evs)
       \<and> (failures evs = [] \<longrightarrow>
            reports evs
              = [LogResponseSuccess \<lparr>prompt = p, parts = length (sent_messages evs)\<rparr>]
          \<and> last evs
              = LogResponseSuccess \<lparr>prompt = p, parts = length (sent_messages evs)\<rparr>)"
proof (cases rule: send_response_in_channel_events [of self env message raw img ch])
  case (prompt_failed recent repeated_id err)
  with was_called show ?thesis by (simp add: evs_def)
next
  case (arrived recent repeated_id p' L)
  note L = arrived(1)
  have evs: "evs = [GetThrottleMessageId (ch_id (msg_channel raw)),
            Generate (ai_user_id self) recent img repeated_id (Inr p'),
            LogRequestArrived p',
            if dont_split_responses self then RequestAsString p' else RequestBySentence p']
           @ L
           @ (if failures L = []
              then [WriteToLog (''Response to '' @ author_name (args message) @ '' done!  ''),
                    LogResponseSuccess \<lparr>prompt = p', parts = length (sent_messages L)\<rparr>]
              else [LogResponseFailure])"
    using arrived(2) by (simp add: evs_def)
  have p: "p' = p"
    using was_called loop_events_no_arrival [OF L, of p] unfolding evs
    by (auto split: if_splits)
  have rep: "reports L = []" by (rule loop_events_no_reports [OF L])
  have ne: "L \<noteq> []" by (rule loop_events_nonempty [OF L])
  have fl: "failures evs = failures L" unfolding evs by simp
  have sm: "sent_messages evs = sent_messages L" unfolding evs by simp
  show ?thesis
  proof (cases "failures L = []")
    case True
    then show ?thesis unfolding fl sm unfolding evs using rep p by simp
  next
    case False
    have "butlast evs = [GetThrottleMessageId (ch_id (msg_channel raw)),
            Generate (ai_user_id self) recent img repeated_id (Inr p'),
            LogRequestArrived p',
            if dont_split_responses self then RequestAsString p' else RequestBySentence p']
           @ L"
      unfolding evs using False by (simp add: butlast_append)
    then have "last (butlast evs) = last L" using ne by simp
    with loop_events_last_failure [OF L False]
    have lf: "failure_of (last (butlast evs)) = failures L" by simp
    show ?thesis unfolding fl using lf False unfolding evs using rep by simp
  qed
qed


lemmas example_defs =
  example_bot_def example_env_def example_raw_def example_channel_def example_thread_def
  example_author_def example_bot_user_def init_def

lemmas run_defs =
  send_response_in_channel_def recent_messages_following_thread_def channel_history_def
  history_plus_thread_kickoff_message_def endswith_def called_def events_since_def Let_def
  log_response_part_def discord_message_to_generic_message_def sanitize_string_def
  FORBIDDEN_CHARACTERS_def

theorem exactly_one_report_witness:
  "LogRequestArrived ''prompt'' \<in> set (events_since example_bot (snd
      (send_response_in_channel (example_env True [''Hello.'', ''Narrator says:''])
         (discord_message_to_generic_message example_raw) example_raw False
         example_thread example_bot)))
   \<and> reports (events_since example_bot (snd
      (send_response_in_channel (example_env True [''Hello.'', ''Narrator says:''])
         (discord_message_to_generic_message example_raw) example_raw False
         example_thread example_bot)))
     = [LogResponseSuccess \<lparr>prompt = ''prompt'', parts = 1\<rparr>]
   \<and> failures (events_since example_bot (snd
      (send_response_in_channel
         ((example_env True [''Hello.'', ''I am well.''])
            \<lparr>send := (\<lambda>tr ch text. Inl (Exception ''HTTPException''))\<rparr>)
         (discord_message_to_generic_message example_raw) example_raw False
         example_thread example_bot)))
     = [Exception ''HTTPException'']
   \<and> reports (events_since example_bot (snd
      (send_response_in_channel
         ((example_env True [''Hello.'', ''I am well.''])
            \<lparr>send := (\<lambda>tr ch text. Inl (Exception ''HTTPException''))\<rparr>)
         (discord_message_to_generic_message example_raw) example_raw False
         example_thread example_bot)))
     = [LogResponseFailure]"
proof -
  have a: "LogRequestArrived ''prompt'' \<in> set (events_since example_bot (snd
      (send_response_in_channel (example_env True [''Hello.'', ''Narrator says:''])
         (discord_message_to_generic_message example_raw) example_raw False
         example_thread example_bot)))"
    by (simp add: example_defs run_defs)
  have b: "LogRequestArrived ''prompt'' \<in> set (events_since example_bot (snd
      (send_response_in_channel
         ((example_env True [''Hello.'', ''I am well.''])
            \<lparr>send := (\<lambda>tr ch text. Inl (Exception ''HTTPException''))\<rparr>)
         (discord_message_to_generic_message example_raw) example_raw False
         example_thread example_bot)))"
    by (simp add: example_defs run_defs)
  show ?thesis
    using a exactly_one_report [OF a] exactly_one_report [OF b]
    by (simp add: example_defs run_defs)
qed

lemma loop_events_log_message:
  assumes "loop_events marker origin ch evs" "LogMessage k g \<in> set evs"
  shows "k = origin"
  using loop_events_members [OF assms] by auto

lemma loop_events_no_throttle:
  assumes "loop_events marker origin ch evs"
  shows "GetThrottleMessageId k \<notin> set evs"
  using loop_events_members [OF assms, of "GetThrottleMessageId k"] by auto

text \<open>
  C8. In the reply coroutine, whatever channel the reply is posted to (the origin channel
  or a thread created for it): every message that \<^verbatim>\<open>send\<close> returned was sent to the
  response channel and is at once reported to the repetition tracker, normalized, under
  the id of the channel of the triggering message, and then counted by one
  \<^verbatim>\<open>log_response_part\<close>; every \<^verbatim>\<open>log_message\<close> call is keyed by that origin id; there are
  as many \<^verbatim>\<open>log_response_part\<close> calls as sent messages; and the first call of the
  coroutine is \<^verbatim>\<open>get_throttle_message_id\<close> on the origin id, the only such call.
\<close>

theorem reports_keyed_by_origin_channel:
  fixes env message raw img ch self
  defines "origin \<equiv> ch_id (msg_channel raw)"
  defines "evs \<equiv> events_since self (snd (send_response_in_channel env message raw img ch self))"
  shows "(\<forall>i c s m. i < length evs \<and> evs ! i = Send c s (Inr m) \<longrightarrow>
            c = ch \<and> i + 2 < length evs
          \<and> evs ! (i + 1) = LogMessage origin (discord_message_to_generic_message m)
          \<and> evs ! (i + 2) = LogResponsePart)
       \<and> (\<forall>k g. LogMessage k g \<in> set evs \<longrightarrow> k = origin)
       \<and> length (filter (\<lambda>e. e = LogResponsePart) evs) = length (sent_messages evs)
       \<and> evs \<noteq> [] \<and> hd evs = GetThrottleMessageId origin
       \<and> (\<forall>k. GetThrottleMessageId k \<in> set evs \<longrightarrow> k = origin)"
proof (cases rule: send_response_in_channel_events [of self env message raw img ch])
  case (prompt_failed recent repeated_id err)
  then have evs: "evs = [GetThrottleMessageId origin,
            Generate (ai_user_id self) recent img repeated_id (Inl err)]"
    by (simp add: evs_def origin_def)
  have "\<And>i c s m. i < length evs \<Longrightarrow> evs ! i \<noteq> Send c s (Inr m)"
    unfolding evs by (simp add: nth_Cons')
  then show ?thesis unfolding evs by (auto simp: sent_messages_def)
next
  case (arrived recent repeated_id p L)
  note L = arrived(1) [folded origin_def]
  let ?pre = "[GetThrottleMessageId origin,
            Generate (ai_user_id self) recent img repeated_id (Inr p),
            LogRequestArrived p,
            if dont_split_responses self then RequestAsString p else RequestBySentence p]"
  let ?post = "if failures L = []
              then [WriteToLog (''Response to '' @ author_name (args message) @ '' done!  ''),
                    LogResponseSuccess \<lparr>prompt = p, parts = length (sent_messages L)\<rparr>]
              else [LogResponseFailure]"
  have evs: "evs = ?pre @ L @ ?post"
    using arrived(2) by (simp add: evs_def origin_def)
  have pre: "\<forall>e \<in> set ?pre. \<forall>c s r. e \<noteq> Send c s r" by simp
  have post: "\<forall>e \<in> set ?post. \<forall>c s r. e \<noteq> Send c s r" by simp
  have follow: "c = ch \<and> i + 2 < length evs
          \<and> evs ! (i + 1) = LogMessage origin (discord_message_to_generic_message m)
          \<and> evs ! (i + 2) = LogResponsePart"
    if "i < length evs" "evs ! i = Send c s (Inr m)" for i c s m
    using follow_embedded [OF pre post L] that unfolding evs by blast
  have keyed: "k = origin" if "LogMessage k g \<in> set evs" for k g
    using that loop_events_log_message [OF L, of k g] unfolding evs
    by (auto split: if_splits)
  have count: "length (filter (\<lambda>e. e = LogResponsePart) evs) = length (sent_messages evs)"
    unfolding evs using loop_events_parts [OF L] by simp
  have throttle: "k = origin" if "GetThrottleMessageId k \<in> set evs" for k
    using that loop_events_no_throttle [OF L, of k] unfolding evs
    by (auto split: if_splits)
  have first: "evs \<noteq> [] \<and> hd evs = GetThrottleMessageId origin"
    unfolding evs by simp
  show ?thesis using follow keyed count throttle first by blast
qed

theorem reports_keyed_by_origin_channel_witness:
  "events_since example_bot (snd
      (send_response_in_channel (example_env True [''Hello.''])
         (discord_message_to_generic_message example_raw) example_raw False
         example_thread example_bot)) ! 5
     = Send example_thread ''Hello.''
         (Inr (Message 205 example_bot_user ''Hello.'' 1 example_thread [] None))
   \<and> events_since example_bot (snd
      (send_response_in_channel (example_env True [''Hello.''])
         (discord_message_to_generic_message example_raw) example_raw False
         example_thread example_bot)) ! 6
     = LogMessage 10 (discord_message_to_generic_message
         (Message 205 example_bot_user ''Hello.'' 1 example_thread [] None))
   \<and> ch_id example_thread = 77"
proof -
  let ?evs = "events_since example_bot (snd
      (send_response_in_channel (example_env True [''Hello.''])
         (discord_message_to_generic_message example_raw) example_raw False
         example_thread example_bot))"
  have a: "5 < length ?evs \<and> ?evs ! 5 = Send example_thread ''Hello.''
         (Inr (Message 205 example_bot_user ''Hello.'' 1 example_thread [] None))"
    by (simp add: example_defs run_defs)
  from reports_keyed_by_origin_channel
         [of example_bot "example_env True [''Hello.'']"
             "discord_message_to_generic_message example_raw" example_raw False example_thread]
  have "?evs ! (5 + 1) = LogMessage (ch_id (msg_channel example_raw))
          (discord_message_to_generic_message
             (Message 205 example_bot_user ''Hello.'' 1 example_thread [] None))"
    using a by blast
  then show ?thesis using a by (simp add: example_raw_def example_channel_def example_thread_def)
qed

lemma history_loop_eq:
  "history_loop stream items last_returned yielded
     = (items + length stream,
        (if stream = [] then last_returned else Some (last stream)),
        yielded @ map discord_message_to_generic_message stream)"
  by (induction stream arbitrary: items last_returned yielded) simp_all



lemma history_plus_thread_kickoff_message_eq:
  "history_plus_thread_kickoff_message (stream, raised) limit
     = (map discord_message_to_generic_message stream
          @ (case thread_kickoff stream of
               Some ref \<Rightarrow>
                 if raised = None \<and> length stream < limit
                 then [discord_message_to_generic_message ref] else []
             | None \<Rightarrow> []),
        raised)"
  by (cases "msg_reference (last stream)")
     (auto simp: history_plus_thread_kickoff_message_def history_loop_eq thread_kickoff_def
           split: option.splits message_reference.splits resolved_reference.splits)

lemma channel_history_length:
  "length (fst (channel_history env tr channel limit)) \<le> limit"
  by (simp add: channel_history_def split: prod.splits)


text \<open>
  C5. When the history stream ends normally after fewer messages than the limit, and its
  last message is a reply whose reference resolves to a concrete message, the assembled
  sequence is the stream's messages, normalized, followed by exactly that message,
  normalized. When the stream yields at least the limit, or its last message is not such
  a reply (or there is none), or the stream raises, nothing is added. The assembled
  sequence is never longer than the stream by more than one, and what
  \<^verbatim>\<open>recent_messages_following_thread\<close> assembles from \<^verbatim>\<open>channel.history(limit=history_lines)\<close>
  stays within the budget plus one (in fact within the budget).
\<close>

theorem history_reconstruction:
  "(raised = None \<and> length stream < limit \<and> thread_kickoff stream = Some ref \<longrightarrow>
      history_plus_thread_kickoff_message (stream, raised) limit
        = (map discord_message_to_generic_message stream
             @ [discord_message_to_generic_message ref], None))
   \<and> (limit \<le> length stream \<or> thread_kickoff stream = None \<or> raised \<noteq> None \<longrightarrow>
      history_plus_thread_kickoff_message (stream, raised) limit
        = (map discord_message_to_generic_message stream, raised))
   \<and> length (fst (history_plus_thread_kickoff_message (stream, raised) limit))
        \<le> length stream + 1
   \<and> length (fst (recent_messages_following_thread env channel self))
        \<le> history_lines (prompt_generator self)
   \<and> length (fst (recent_messages_following_thread env channel self))
        \<le> history_lines (prompt_generator self) + 1"
proof -
  have a: "raised = None \<and> length stream < limit \<and> thread_kickoff stream = Some ref \<longrightarrow>
      history_plus_thread_kickoff_message (stream, raised) limit
        = (map discord_message_to_generic_message stream
             @ [discord_message_to_generic_message ref], None)"
    by (simp add: history_plus_thread_kickoff_message_eq)
  have b: "limit \<le> length stream \<or> thread_kickoff stream = None \<or> raised \<noteq> None \<longrightarrow>
      history_plus_thread_kickoff_message (stream, raised) limit
        = (map discord_message_to_generic_message stream, raised)"
    by (auto simp: history_plus_thread_kickoff_message_eq split: option.splits)
  have c: "length (fst (history_plus_thread_kickoff_message (stream', raised') limit'))
        \<le> (if length stream' < limit' then length stream' + 1 else length stream')"
    for stream' raised' limit'
    by (simp add: history_plus_thread_kickoff_message_eq split: option.splits)
  have d: "length (fst (recent_messages_following_thread env channel self))
        \<le> history_lines (prompt_generator self)"
  proof -
    let ?n = "history_lines (prompt_generator self)"
    obtain stream' raised' where h: "channel_history env (trace self) channel ?n = (stream', raised')"
      by (cases "channel_history env (trace self) channel ?n") auto
    have "length stream' \<le> ?n"
      using channel_history_length [of env "trace self" channel ?n] h by simp
    with c [of stream' raised' ?n] show ?thesis
      by (simp add: recent_messages_following_thread_def h split: if_splits)
  qed
  from c [of stream raised limit]
  have c': "length (fst (history_plus_thread_kickoff_message (stream, raised) limit))
        \<le> length stream + 1" by (simp split: if_splits)
  show ?thesis using a b c' d by simp
qed

theorem history_reconstruction_witness:
  "history_plus_thread_kickoff_message
     ([Message 102 example_bot_user ''hello ann'' 2 example_thread [] None,
       Message 101 example_author ''again'' 1 example_thread []
         (Some (MessageReference (Some (ResolvedMessage example_raw))))], None) 7
   = ([discord_message_to_generic_message
         (Message 102 example_bot_user ''hello ann'' 2 example_thread [] None),
       discord_message_to_generic_message
         (Message 101 example_author ''again'' 1 example_thread []
            (Some (MessageReference (Some (ResolvedMessage example_raw))))),
       discord_message_to_generic_message example_raw], None)
   \<and> history_plus_thread_kickoff_message
     ([Message 102 example_bot_user ''hello ann'' 2 example_thread [] None,
       Message 101 example_author ''again'' 1 example_thread []
         (Some (MessageReference (Some (ResolvedMessage example_raw))))], None) 2
   = ([discord_message_to_generic_message
         (Message 102 example_bot_user ''hello ann'' 2 example_thread [] None),
       discord_message_to_generic_message
         (Message 101 example_author ''again'' 1 example_thread []
            (Some (MessageReference (Some (ResolvedMessage example_raw)))))], None)"
  using history_reconstruction
          [of None "[Message 102 example_bot_user ''hello ann'' 2 example_thread [] None,
                     Message 101 example_author ''again'' 1 example_thread []
                       (Some (MessageReference (Some (ResolvedMessage example_raw))))]"
              7 example_raw]
        history_reconstruction
          [of None "[Message 102 example_bot_user ''hello ann'' 2 example_thread [] None,
                     Message 101 example_author ''again'' 1 example_thread []
                       (Some (MessageReference (Some (ResolvedMessage example_raw))))]"
              2 example_raw]
  by (simp add: thread_kickoff_def)

lemma send_response_cases:
  "send_response env message raw img self =
     (if wants_thread raw self then
        (if create_public_threads
              (permissions_for env (trace self) (msg_channel raw) (msg_author raw))
         then (case create_thread env (trace self) raw (thread_name raw self) of
                 Inl err \<Rightarrow>
                   (Inl err,
                    self\<lparr>trace := trace self
                       @ [CreateThread raw (thread_name raw self) (Inl err)]\<rparr>)
               | Inr th \<Rightarrow>
                   (Inr (Some (ResponseTask raw img th), Some th),
                    self\<lparr>trace := trace self
                       @ [CreateThread raw (thread_name raw self) (Inr th), CreateTask th]\<rparr>))
         else (Inr (None, None), self))
      else (Inr (Some (ResponseTask raw img (msg_channel raw)), Some (msg_channel raw)),
            self\<lparr>trace := trace self @ [CreateTask (msg_channel raw)]\<rparr>))"
  by (simp add: send_response_def wants_thread_def thread_name_def Let_def called_frame
           split: sum.splits)

lemma wants_thread_called [simp]:
  "wants_thread raw (called e self) = wants_thread raw self"
  "thread_name raw (called e self) = thread_name raw self"
  by (simp_all add: wants_thread_def thread_name_def)



lemma on_message_resolved_own:
  fixes env raw message is_summon image_prompt message_task rc self
  defines "R \<equiv> on_message_resolved env raw message is_summon image_prompt message_task rc self"
  defines "own \<equiv> events_since self (snd (snd (snd R)))"
  defines "message' \<equiv> (if is_summon \<and> isinstance_ChannelMessage message \<and> ch_type rc = Thread
                         then set_channel_id (ch_id rc) message else message)"
  shows "snd (snd (snd R)) = self\<lparr>trace := trace self @ own\<rparr>"
    and "\<forall>e \<in> set own. is_handler_event e \<and> \<not> is_create_thread e"
    and "fst R = message'"
    and "(\<forall>t. message_task = Some t \<longrightarrow> task_channel t = rc) \<Longrightarrow>
           \<forall>t \<in> set (fst (snd (snd R))). task_channel t = rc"
    and "filter is_log_mention own
           = (if is_summon \<and> isinstance_ChannelMessage message then [LogMention message'] else [])"
  unfolding R_def own_def message'_def on_message_resolved_def Let_def
  by (auto simp: called_frame events_since_def
        split: option.splits sum.splits prod.splits)


lemma on_message_eq:
  fixes env raw self
  defines "m \<equiv> discord_message_to_generic_message raw"
  defines "gate \<equiv> should_reply_to_message env (trace self) (ai_user_id self) m"
  defines "called_gate \<equiv> ShouldReplyToMessage (ai_user_id self) m"
  defines "gate_evs \<equiv> [called_gate, Typing (msg_channel raw) None]
                        @ (if image_generator self \<noteq> None then [MaybeGetImagePrompt raw]
                           else [])"
  defines "image_prompt \<equiv> (if image_generator self \<noteq> None
          then maybe_get_image_prompt env
                 (trace self @ [called_gate, Typing (msg_channel raw) None]) raw
          else None)"
  shows "on_message env raw self =
    (if \<not> fst gate then (m, None, [], self\<lparr>trace := trace self @ [called_gate]\<rparr>)
     else
       (case typing env (trace self @ [called_gate]) (msg_channel raw) of
          Some err \<Rightarrow>
            (m, Some err, [],
             self\<lparr>trace := trace self @ [called_gate, Typing (msg_channel raw) (Some err)]\<rparr>)
        | None \<Rightarrow>
            if wants_thread raw self then
              (if create_public_threads
                    (permissions_for env (trace self @ gate_evs) (msg_channel raw)
                       (msg_author raw))
               then
                 (case create_thread env (trace self @ gate_evs) raw (thread_name raw self) of
                    Inl err \<Rightarrow>
                      (m, Some err, [],
                       self\<lparr>trace := trace self @ gate_evs
                          @ [CreateThread raw (thread_name raw self) (Inl err)]\<rparr>)
                  | Inr th \<Rightarrow>
                      on_message_resolved env raw m (snd gate) image_prompt
                        (Some (ResponseTask raw (image_prompt \<noteq> None) th)) th
                        (self\<lparr>trace := trace self @ gate_evs
                           @ [CreateThread raw (thread_name raw self) (Inr th),
                              CreateTask th]\<rparr>))
               else (m, None, [], self\<lparr>trace := trace self @ gate_evs\<rparr>))
            else
              on_message_resolved env raw m (snd gate) image_prompt
                (Some (ResponseTask raw (image_prompt \<noteq> None) (msg_channel raw)))
                (msg_channel raw)
                (self\<lparr>trace := trace self @ gate_evs @ [CreateTask (msg_channel raw)]\<rparr>)))"
  unfolding m_def gate_def called_gate_def gate_evs_def image_prompt_def
  by (simp add: on_message_def send_response_cases Let_def called_frame
           wants_thread_def thread_name_def
           split: option.splits sum.splits)

lemma send_response_in_channel_frame:
  "snd (send_response_in_channel env message raw img ch self)
     = self\<lparr>trace := trace self
         @ events_since self (snd (send_response_in_channel env message raw img ch self))\<rparr>"
proof -
  have "\<exists>evs. snd (send_response_in_channel env message raw img ch self)
          = self\<lparr>trace := trace self @ evs\<rparr>"
  proof -
    from send_response_in_channel_run [of env message raw img ch self]
    obtain recent repeated_id generated where
      a: "\<forall>err. generated = Inl err \<longrightarrow>
        send_response_in_channel env message raw img ch self
          = (Some err,
             self\<lparr>trace := trace self @
               [GetThrottleMessageId (ch_id (msg_channel raw)),
                Generate (ai_user_id self) recent img repeated_id generated]\<rparr>)"
      and b: "\<forall>p. generated = Inr p \<longrightarrow>
        (\<exists>evs. loop_events (bot_prompt_line (prompt_generator self))
                 (ch_id (msg_channel raw)) ch evs
           \<and> send_response_in_channel env message raw img ch self
               = (None,
                  self\<lparr>trace := trace self @
                    [GetThrottleMessageId (ch_id (msg_channel raw)),
                     Generate (ai_user_id self) recent img repeated_id generated,
                     LogRequestArrived p,
                     if dont_split_responses self then RequestAsString p
                     else RequestBySentence p]
                    @ evs
                    @ (if failures evs = []
                       then [WriteToLog (''Response to '' @ author_name (args message)
                                         @ '' done!  ''),
                             LogResponseSuccess
                               \<lparr>prompt = p, parts = length (sent_messages evs)\<rparr>]
                       else [LogResponseFailure])\<rparr>))"
      by blast
    show ?thesis
    proof (cases generated)
      case (Inl err)
      with a show ?thesis by (metis snd_conv)
    next
      case (Inr p)
      with b obtain tail where
        "send_response_in_channel env message raw img ch self
           = (None, self\<lparr>trace := trace self @ tail\<rparr>)"
        by (metis append.assoc)
      then show ?thesis by (metis snd_conv)
    qed
  qed
  then obtain evs where
    "snd (send_response_in_channel env message raw img ch self)
          = self\<lparr>trace := trace self @ evs\<rparr>" by blast
  then show ?thesis by simp
qed

lemma send_response_in_channel_task_events:
  assumes "e \<in> set (events_since self (snd (send_response_in_channel env message raw img ch self)))"
  shows "\<not> is_handler_event e \<and> (\<forall>c s r. e = Send c s r \<longrightarrow> c = ch)"
proof (cases rule: send_response_in_channel_events [of self env message raw img ch])
  case (prompt_failed recent repeated_id err)
  with assms show ?thesis by auto
next
  case (arrived recent repeated_id p L)
  from assms consider
      "e \<in> {GetThrottleMessageId (ch_id (msg_channel raw)),
             Generate (ai_user_id self) recent img repeated_id (Inr p),
             LogRequestArrived p, RequestAsString p, RequestBySentence p,
             WriteToLog (''Response to '' @ author_name (args message) @ '' done!  ''),
             LogResponseSuccess \<lparr>prompt = p, parts = length (sent_messages L)\<rparr>,
             LogResponseFailure}"
    | "e \<in> set L"
    unfolding arrived(2) by (auto split: if_splits)
  then show ?thesis
  proof cases
    case 1
    then show ?thesis by auto
  next
    case 2
    from loop_events_members [OF arrived(1) 2] show ?thesis by auto
  qed
qed

lemma run_task_events:
  "\<exists>tev. run_task env message t self = self\<lparr>trace := trace self @ tev\<rparr>
       \<and> (\<forall>e \<in> set tev. \<not> is_handler_event e
              \<and> (\<forall>c s r. e = Send c s r \<longrightarrow> c = task_channel t))"
proof (cases t)
  case (ResponseTask raw img ch)
  let ?tev = "events_since self (snd (send_response_in_channel env message raw img ch self))"
  show ?thesis
    using send_response_in_channel_frame [of env message raw img ch self]
          send_response_in_channel_task_events [of _ self env message raw img ch]
    unfolding ResponseTask
    by (intro exI [of _ ?tev]) auto
next
  case (ImageTask p raw ch)
  then show ?thesis by (intro exI [of _ "[]"]) simp
qed

lemma run_tasks_events:
  "\<exists>tev. run_tasks env message ts self = self\<lparr>trace := trace self @ tev\<rparr>
       \<and> (\<forall>e \<in> set tev. \<not> is_handler_event e
              \<and> (\<forall>c s r. e = Send c s r \<longrightarrow> c \<in> task_channel ` set ts))"
proof (induction ts arbitrary: self)
  case Nil
  show ?case by (intro exI [of _ "[]"]) simp
next
  case (Cons t ts)
  from run_task_events [of env message t self] obtain tev1 where 1:
    "run_task env message t self = self\<lparr>trace := trace self @ tev1\<rparr>"
    "\<forall>e \<in> set tev1. \<not> is_handler_event e
              \<and> (\<forall>c s r. e = Send c s r \<longrightarrow> c = task_channel t)" by blast
  from Cons.IH [of "self\<lparr>trace := trace self @ tev1\<rparr>"] obtain tev2 where 2:
    "run_tasks env message ts (self\<lparr>trace := trace self @ tev1\<rparr>)
       = self\<lparr>trace := trace self @ tev1 @ tev2\<rparr>"
    "\<forall>e \<in> set tev2. \<not> is_handler_event e
              \<and> (\<forall>c s r. e = Send c s r \<longrightarrow> c \<in> task_channel ` set ts)" by auto
  show ?case
    using 1 2 by (intro exI [of _ "tev1 @ tev2"]) auto
qed

lemma set_channel_id_origin:
  "set_channel_id (ch_id (msg_channel raw)) (discord_message_to_generic_message raw)
     = discord_message_to_generic_message raw"
  by (simp add: discord_message_to_generic_message_def Let_def)

lemma resolved_summary:
  fixes env raw m is_summon ip img rc self pre
  defines "R \<equiv> on_message_resolved env raw m is_summon ip (Some (ResponseTask raw img rc)) rc
                  (self\<lparr>trace := trace self @ pre\<rparr>)"
  shows "\<exists>own_r. snd (snd (snd R)) = self\<lparr>trace := trace self @ pre @ own_r\<rparr>
     \<and> (\<forall>e \<in> set own_r. is_handler_event e \<and> \<not> is_create_thread e)
     \<and> fst R = (if is_summon \<and> isinstance_ChannelMessage m \<and> ch_type rc = Thread
                 then set_channel_id (ch_id rc) m else m)
     \<and> (\<forall>t \<in> set (fst (snd (snd R))). task_channel t = rc)
     \<and> filter is_log_mention own_r
           = (if is_summon \<and> isinstance_ChannelMessage m then [LogMention (fst R)] else [])"
proof -
  let ?self4 = "self\<lparr>trace := trace self @ pre\<rparr>"
  let ?own = "events_since ?self4 (snd (snd (snd R)))"
  note facts = on_message_resolved_own
      [where env = env and raw = raw and message = m and is_summon = is_summon
         and image_prompt = ip and message_task = "Some (ResponseTask raw img rc)"
         and rc = rc and self = ?self4, folded R_def]
  have "snd (snd (snd R)) = self\<lparr>trace := trace self @ pre @ ?own\<rparr>"
    using facts(1) by simp
  moreover have "\<forall>t \<in> set (fst (snd (snd R))). task_channel t = rc"
    by (rule facts(4)) simp
  ultimately show ?thesis
    using facts(2,3,5) by (intro exI [of _ ?own]) simp
qed


lemma on_message_summary:
  fixes env raw self
  defines "m \<equiv> discord_message_to_generic_message raw"
  defines "is_summon \<equiv> snd (should_reply_to_message env (trace self) (ai_user_id self) m)"
  defines "name \<equiv> thread_name raw self"
  defines "R \<equiv> on_message env raw self"
  shows "\<exists>own. snd (snd (snd R)) = self\<lparr>trace := trace self @ own\<rparr>
     \<and> (\<forall>e \<in> set own. is_handler_event e)
     \<and> length (filter is_create_thread own) \<le> 1
     \<and> (\<not> wants_thread raw self \<longrightarrow> filter is_create_thread own = [])
     \<and> (\<forall>t \<in> set (fst (snd (snd R))).
           CreateThread raw name (Inr (task_channel t)) \<in> set own
         \<or> (task_channel t = msg_channel raw \<and> \<not> wants_thread raw self))
     \<and> (fst R = m
         \<or> (\<exists>th. is_summon \<and> ch_type th = Thread
               \<and> CreateThread raw name (Inr th) \<in> set own
               \<and> fst R = set_channel_id (ch_id th) m))
     \<and> (filter is_log_mention own = [] \<or> filter is_log_mention own = [LogMention (fst R)])
     \<and> (fst R \<noteq> m \<longrightarrow> filter is_log_mention own = [LogMention (fst R)])
     \<and> (wants_thread raw self
          \<and> (\<forall>tr. \<not> create_public_threads
                       (permissions_for env tr (msg_channel raw) (msg_author raw))) \<longrightarrow>
            (\<forall>e \<in> set own. is_gate_event e) \<and> fst (snd (snd R)) = [] \<and> fst R = m
          \<and> (\<forall>err. fst (snd R) = Some err \<longrightarrow>
                 Typing (msg_channel raw) (Some err) \<in> set own))"
proof -
  let ?gate = "should_reply_to_message env (trace self) (ai_user_id self) m"
  let ?called_gate = "ShouldReplyToMessage (ai_user_id self) m"
  let ?gate_evs = "[?called_gate, Typing (msg_channel raw) None]
                    @ (if image_generator self \<noteq> None then [MaybeGetImagePrompt raw] else [])"
  let ?ip = "if image_generator self \<noteq> None
          then maybe_get_image_prompt env
                 (trace self @ [?called_gate, Typing (msg_channel raw) None]) raw
          else None"
  note eq = on_message_eq [of env raw self, folded m_def]
  show ?thesis
  proof (cases "fst ?gate")
    case False
    then have "R = (m, None, [], self\<lparr>trace := trace self @ [?called_gate]\<rparr>)"
      unfolding R_def eq by simp
    then show ?thesis by (intro exI [of _ "[?called_gate]"]) simp
  next
    case accepted: True
    show ?thesis
    proof (cases "typing env (trace self @ [?called_gate]) (msg_channel raw)")
      case (Some err)
      with accepted have "R = (m, Some err, [],
          self\<lparr>trace := trace self @ [?called_gate, Typing (msg_channel raw) (Some err)]\<rparr>)"
        unfolding R_def eq by simp
      then show ?thesis
        by (intro exI [of _ "[?called_gate, Typing (msg_channel raw) (Some err)]"]) simp
    next
      case None
      show ?thesis
      proof (cases "wants_thread raw self")
        case False
        let ?pre = "?gate_evs @ [CreateTask (msg_channel raw)]"
        let ?R = "on_message_resolved env raw m is_summon ?ip
                (Some (ResponseTask raw (?ip \<noteq> None) (msg_channel raw)))
                (msg_channel raw) (self\<lparr>trace := trace self @ ?pre\<rparr>)"
        have R: "R = ?R"
          using accepted None False unfolding R_def eq is_summon_def by simp
        from resolved_summary [of env raw m is_summon ?ip "?ip \<noteq> None" "msg_channel raw"
                                  self ?pre]
        obtain own_r where r:
          "snd (snd (snd ?R)) = self\<lparr>trace := trace self @ ?pre @ own_r\<rparr>"
          "\<forall>e \<in> set own_r. is_handler_event e \<and> \<not> is_create_thread e"
          "fst ?R = (if is_summon \<and> isinstance_ChannelMessage m
                        \<and> ch_type (msg_channel raw) = Thread
                     then set_channel_id (ch_id (msg_channel raw)) m else m)"
          "\<forall>t \<in> set (fst (snd (snd ?R))). task_channel t = msg_channel raw"
          "filter is_log_mention own_r
             = (if is_summon \<and> isinstance_ChannelMessage m then [LogMention (fst ?R)] else [])"
          by blast
        have same: "fst ?R = m"
          using r(3) set_channel_id_origin [of raw] by (simp add: m_def)
        show ?thesis
          unfolding R
          apply (intro exI [of _ "?pre @ own_r"] conjI)
          subgoal using r(1) by simp
          subgoal using r(2) by auto
          subgoal using r(2) by (simp add: filter_empty_conv)
          subgoal using r(2) by (simp add: filter_empty_conv)
          subgoal using r(4) False by simp
          subgoal using same by simp
          subgoal using r(5) by auto
          subgoal using same by simp
          subgoal using False by simp
          done
      next
        case wants: True
        show ?thesis
        proof (cases "create_public_threads
             (permissions_for env (trace self @ ?gate_evs) (msg_channel raw) (msg_author raw))")
          case False
          with accepted None wants
          have "R = (m, None, [], self\<lparr>trace := trace self @ ?gate_evs\<rparr>)"
            unfolding R_def eq by simp
          then show ?thesis by (intro exI [of _ ?gate_evs]) simp
        next
          case perm: True
          show ?thesis
          proof (cases "create_thread env (trace self @ ?gate_evs) raw (thread_name raw self)")
            case (Inl err)
            with accepted None wants perm
            have "R = (m, Some err, [], self\<lparr>trace := trace self @ ?gate_evs
                          @ [CreateThread raw (thread_name raw self) (Inl err)]\<rparr>)"
              unfolding R_def eq by simp
            then show ?thesis
              using perm wants
              by (intro exI [of _ "?gate_evs
                     @ [CreateThread raw (thread_name raw self) (Inl err)]"]) auto
          next
            case (Inr th)
            let ?pre = "?gate_evs @ [CreateThread raw name (Inr th), CreateTask th]"
            let ?R = "on_message_resolved env raw m is_summon ?ip
                (Some (ResponseTask raw (?ip \<noteq> None) th)) th
                (self\<lparr>trace := trace self @ ?pre\<rparr>)"
            have R: "R = ?R"
              using accepted None wants perm Inr unfolding R_def eq is_summon_def name_def
              by simp
            from resolved_summary [of env raw m is_summon ?ip "?ip \<noteq> None" th self ?pre]
            obtain own_r where r:
              "snd (snd (snd ?R)) = self\<lparr>trace := trace self @ ?pre @ own_r\<rparr>"
              "\<forall>e \<in> set own_r. is_handler_event e \<and> \<not> is_create_thread e"
              "fst ?R = (if is_summon \<and> isinstance_ChannelMessage m \<and> ch_type th = Thread
                         then set_channel_id (ch_id th) m else m)"
              "\<forall>t \<in> set (fst (snd (snd ?R))). task_channel t = th"
              "filter is_log_mention own_r
                 = (if is_summon \<and> isinstance_ChannelMessage m then [LogMention (fst ?R)]
                    else [])"
              by blast
            show ?thesis
              unfolding R
              apply (intro exI [of _ "?pre @ own_r"] conjI)
              subgoal using r(1) by simp
              subgoal using r(2) by auto
              subgoal using r(2) by (simp add: filter_empty_conv)
              subgoal using wants by simp
              subgoal using r(4) by simp
              subgoal using r(3) by (auto split: if_splits)
              subgoal using r(5) by auto
              subgoal using r(3,5) by (auto split: if_splits)
              subgoal using perm by auto
              done
          qed
        qed
      qed
    qed
  qed
qed

lemma handle_message_split:
  obtains own tev where
    "snd (snd (snd (on_message env raw self))) = self\<lparr>trace := trace self @ own\<rparr>"
    "handle_message env raw self
       = (fst (on_message env raw self), fst (snd (on_message env raw self)),
          self\<lparr>trace := trace self @ own @ tev\<rparr>)"
    "\<forall>e \<in> set tev. \<not> is_handler_event e
        \<and> (\<forall>c s r. e = Send c s r \<longrightarrow>
              c \<in> task_channel ` set (fst (snd (snd (on_message env raw self)))))"
proof -
  obtain message caught tasks self' where R:
    "on_message env raw self = (message, caught, tasks, self')"
    by (cases "on_message env raw self") auto
  from on_message_summary [of env raw self] obtain own where
    own: "self' = self\<lparr>trace := trace self @ own\<rparr>" unfolding R by auto
  from run_tasks_events [of env message tasks self'] obtain tev where tev:
    "run_tasks env message tasks self' = self'\<lparr>trace := trace self' @ tev\<rparr>"
    "\<forall>e \<in> set tev. \<not> is_handler_event e
        \<and> (\<forall>c s r. e = Send c s r \<longrightarrow> c \<in> task_channel ` set tasks)" by blast
  show thesis
    by (rule that [of own tev])
       (use R own tev in \<open>simp_all add: handle_message_def\<close>)
qed

lemma events_since_frame2 [simp]:
  "events_since self (self\<lparr>trace := trace self @ xs @ ys\<rparr>) = xs @ ys"
  by (simp add: events_since_def)

text \<open>
  C4. When the reply-in-thread policy is on, the message comes from a text channel, its
  author is a guild member and lacks the permission to create public threads, then
  \<^verbatim>\<open>send_response\<close> returns \<^verbatim>\<open>(None, None)\<close> and makes no call, and handling the message
  makes no call but the gate's \<^verbatim>\<open>should_reply_to_message\<close>, the typing indicator and
  \<^verbatim>\<open>maybe_get_image_prompt\<close>: no thread is created, nothing is sent, no mention is
  logged, the stats collector is not called. The message object is left as normalized,
  and the only exception the handler can have caught is one of the typing indicator.
\<close>

theorem declined_without_permission:
  assumes "wants_thread raw self"
      and "\<forall>tr. \<not> create_public_threads
                   (permissions_for env tr (msg_channel raw) (msg_author raw))"
  shows "send_response env message raw img self = (Inr (None, None), self)
       \<and> fst (handle_message env raw self) = discord_message_to_generic_message raw
       \<and> (\<forall>e \<in> set (events_since self (snd (snd (handle_message env raw self)))).
             (\<exists>uid m. e = ShouldReplyToMessage uid m) \<or> (\<exists>c r. e = Typing c r)
           \<or> (\<exists>r. e = MaybeGetImagePrompt r))
       \<and> (\<forall>err. fst (snd (handle_message env raw self)) = Some err \<longrightarrow>
             Typing (msg_channel raw) (Some err)
               \<in> set (events_since self (snd (snd (handle_message env raw self)))))"
proof -
  have a: "send_response env message raw img self = (Inr (None, None), self)"
    using assms by (simp add: send_response_cases)
  from on_message_summary [of env raw self] assms
  obtain own where own:
    "snd (snd (snd (on_message env raw self))) = self\<lparr>trace := trace self @ own\<rparr>"
    "\<forall>e \<in> set own. is_handler_event e"
    "\<forall>e \<in> set own. is_gate_event e"
    "fst (snd (snd (on_message env raw self))) = []"
    "fst (on_message env raw self) = discord_message_to_generic_message raw"
    "\<forall>err. fst (snd (on_message env raw self)) = Some err \<longrightarrow>
         Typing (msg_channel raw) (Some err) \<in> set own"
    by blast
  have H: "handle_message env raw self
       = (discord_message_to_generic_message raw, fst (snd (on_message env raw self)),
          self\<lparr>trace := trace self @ own\<rparr>)"
    using own(1,4,5)
    by (cases "on_message env raw self") (simp add: handle_message_def)
  have gate: "(\<exists>uid m. e = ShouldReplyToMessage uid m) \<or> (\<exists>c r. e = Typing c r)
           \<or> (\<exists>r. e = MaybeGetImagePrompt r)" if "is_gate_event e" for e
    using that by (cases e) simp_all
  have evs: "events_since self (snd (snd (handle_message env raw self))) = own"
    unfolding H by simp
  have c: "\<forall>e \<in> set own. (\<exists>uid m. e = ShouldReplyToMessage uid m) \<or> (\<exists>c r. e = Typing c r)
           \<or> (\<exists>r. e = MaybeGetImagePrompt r)"
    using own(3) gate by blast
  have d: "fst (handle_message env raw self) = discord_message_to_generic_message raw"
    "fst (snd (handle_message env raw self)) = fst (snd (on_message env raw self))"
    unfolding H by simp_all
  show ?thesis
    unfolding evs d using a c own(6) by blast
qed


lemmas handler_defs =
  handle_message_def on_message_def on_message_resolved_def send_response_def
  wants_thread_def thread_name_def isinstance_ChannelMessage_def

theorem declined_without_permission_witness:
  "wants_thread example_raw example_bot
   \<and> events_since example_bot
       (snd (snd (handle_message (example_env False [''Hello.'']) example_raw example_bot)))
     = [ShouldReplyToMessage 1 (discord_message_to_generic_message example_raw),
        Typing example_channel None]
   \<and> fst (snd (handle_message (example_env False [''Hello.'']) example_raw example_bot))
     = None"
proof -
  have w: "wants_thread example_raw example_bot"
    by (simp add: wants_thread_def example_defs)
  have p: "\<forall>tr. \<not> create_public_threads
             (permissions_for (example_env False [''Hello.'']) tr (msg_channel example_raw)
                (msg_author example_raw))"
    by (simp add: example_env_def)
  from declined_without_permission [OF w p] w show ?thesis
    by (simp add: handler_defs example_defs run_defs)
qed

lemma create_thread_is_handler: "is_create_thread e \<Longrightarrow> is_handler_event e"
  by (cases e) simp_all

lemma log_mention_is_handler: "is_log_mention e \<Longrightarrow> is_handler_event e"
  by (cases e) simp_all

lemma filter_none: "(\<forall>e \<in> set xs. \<not> P e) \<Longrightarrow> filter P xs = []"
  by (simp add: filter_empty_conv)

text \<open>
  C3. If the reply-in-thread policy is off, or the message does not come from a text
  channel, or its author is not a guild member, \<^verbatim>\<open>send_response\<close> creates no thread and
  the reply target is the channel of the message. If the policy is on, the channel is a
  text channel, the author is a member who may create public threads, and the platform
  creates the thread, then \<^verbatim>\<open>send_response\<close> creates exactly one thread, named
  \<^verbatim>\<open>"<ai_name>: Response to <author name>"\<close>, and that thread is the reply target. In the
  whole handling of a message at most one thread is created, none in the first case, and
  every sentence is sent either into a thread created earlier in the handling or, in the
  first case, into the channel of the message.
\<close>

theorem reply_target:
  fixes env raw self message img th
  defines "evs \<equiv> events_since self (snd (snd (handle_message env raw self)))"
  shows "(\<not> wants_thread raw self \<longrightarrow>
            send_response env message raw img self
              = (Inr (Some (ResponseTask raw img (msg_channel raw)), Some (msg_channel raw)),
                 self\<lparr>trace := trace self @ [CreateTask (msg_channel raw)]\<rparr>))
       \<and> (wants_thread raw self
            \<and> create_public_threads
                 (permissions_for env (trace self) (msg_channel raw) (msg_author raw))
            \<and> create_thread env (trace self) raw
                 (ai_name self @ '': Response to '' @ user_name (msg_author raw)) = Inr th \<longrightarrow>
            send_response env message raw img self
              = (Inr (Some (ResponseTask raw img th), Some th),
                 self\<lparr>trace := trace self
                    @ [CreateThread raw
                         (ai_name self @ '': Response to '' @ user_name (msg_author raw))
                         (Inr th),
                       CreateTask th]\<rparr>))
       \<and> length (filter is_create_thread evs) \<le> 1
       \<and> (\<not> wants_thread raw self \<longrightarrow> filter is_create_thread evs = [])
       \<and> (\<forall>i c s r. i < length evs \<and> evs ! i = Send c s r \<longrightarrow>
             (\<exists>j < i. evs ! j = CreateThread raw
                         (ai_name self @ '': Response to '' @ user_name (msg_author raw))
                         (Inr c))
           \<or> (c = msg_channel raw \<and> \<not> wants_thread raw self))"
proof -
  let ?name = "ai_name self @ '': Response to '' @ user_name (msg_author raw)"
  have name: "thread_name raw self = ?name" by (simp add: thread_name_def)
  have a: "\<not> wants_thread raw self \<longrightarrow>
            send_response env message raw img self
              = (Inr (Some (ResponseTask raw img (msg_channel raw)), Some (msg_channel raw)),
                 self\<lparr>trace := trace self @ [CreateTask (msg_channel raw)]\<rparr>)"
    by (simp add: send_response_cases)
  have b: "wants_thread raw self
            \<and> create_public_threads
                 (permissions_for env (trace self) (msg_channel raw) (msg_author raw))
            \<and> create_thread env (trace self) raw ?name = Inr th \<longrightarrow>
            send_response env message raw img self
              = (Inr (Some (ResponseTask raw img th), Some th),
                 self\<lparr>trace := trace self @ [CreateThread raw ?name (Inr th), CreateTask th]\<rparr>)"
    by (simp add: send_response_cases name)
  obtain own tev where split:
    "snd (snd (snd (on_message env raw self))) = self\<lparr>trace := trace self @ own\<rparr>"
    "handle_message env raw self
       = (fst (on_message env raw self), fst (snd (on_message env raw self)),
          self\<lparr>trace := trace self @ own @ tev\<rparr>)"
    "\<forall>e \<in> set tev. \<not> is_handler_event e
        \<and> (\<forall>c s r. e = Send c s r \<longrightarrow>
              c \<in> task_channel ` set (fst (snd (snd (on_message env raw self)))))"
    by (rule handle_message_split)
  from on_message_summary [of env raw self]
  obtain own2 where own2:
    "snd (snd (snd (on_message env raw self))) = self\<lparr>trace := trace self @ own2\<rparr>"
    "\<forall>e \<in> set own2. is_handler_event e"
    "length (filter is_create_thread own2) \<le> 1"
    "\<not> wants_thread raw self \<longrightarrow> filter is_create_thread own2 = []"
    "\<forall>t \<in> set (fst (snd (snd (on_message env raw self)))).
           CreateThread raw (thread_name raw self) (Inr (task_channel t)) \<in> set own2
         \<or> (task_channel t = msg_channel raw \<and> \<not> wants_thread raw self)"
    by blast
  have "self\<lparr>trace := trace self @ own\<rparr> = self\<lparr>trace := trace self @ own2\<rparr>"
    using split(1) own2(1) by simp
  then have "trace (self\<lparr>trace := trace self @ own\<rparr>)
               = trace (self\<lparr>trace := trace self @ own2\<rparr>)" by (rule arg_cong)
  then have same: "own2 = own" by simp
  note own = own2(2-5) [unfolded same name]
  have evs: "evs = own @ tev" unfolding evs_def split(2) by simp
  have tev_none: "filter is_create_thread tev = []"
    using split(3) create_thread_is_handler by (intro filter_none) blast
  have c: "length (filter is_create_thread evs) \<le> 1"
    "\<not> wants_thread raw self \<longrightarrow> filter is_create_thread evs = []"
    unfolding evs using own(2,3) tev_none by simp_all
  have d: "\<forall>i c s r. i < length evs \<and> evs ! i = Send c s r \<longrightarrow>
             (\<exists>j < i. evs ! j = CreateThread raw ?name (Inr c))
           \<or> (c = msg_channel raw \<and> \<not> wants_thread raw self)"
  proof (intro allI impI)
    fix i c s r
    assume "i < length evs \<and> evs ! i = Send c s r"
    then have i: "i < length evs" "evs ! i = Send c s r" by simp_all
    have ge: "length own \<le> i"
    proof (rule ccontr)
      assume "\<not> length own \<le> i"
      then have "i < length own" by simp
      then have "own ! i \<in> set own" "evs ! i = own ! i" by (simp_all add: evs nth_append)
      with own(1) i(2) show False by auto
    qed
    with i have "tev ! (i - length own) = Send c s r" "i - length own < length tev"
      by (simp_all add: evs nth_append)
    then have "Send c s r \<in> set tev" by (metis nth_mem)
    with split(3) obtain t where t:
      "t \<in> set (fst (snd (snd (on_message env raw self))))" "c = task_channel t" by blast
    from own(4) t consider
        "CreateThread raw ?name (Inr c) \<in> set own"
      | "c = msg_channel raw \<and> \<not> wants_thread raw self" by blast
    then show "(\<exists>j < i. evs ! j = CreateThread raw ?name (Inr c))
           \<or> (c = msg_channel raw \<and> \<not> wants_thread raw self)"
    proof cases
      case 1
      then obtain j where "j < length own" "own ! j = CreateThread raw ?name (Inr c)"
        by (metis in_set_conv_nth)
      with ge have "j < i" "evs ! j = CreateThread raw ?name (Inr c)"
        by (simp_all add: evs nth_append)
      then show ?thesis by blast
    next
      case 2
      then show ?thesis by blast
    qed
  qed
  show ?thesis by (intro conjI a b c d)
qed


lemma example_run:
  "events_since example_bot
     (snd (snd (handle_message (example_env True [''Hello.'']) example_raw example_bot)))
   = [ShouldReplyToMessage 1 (discord_message_to_generic_message example_raw),
      Typing example_channel None,
      CreateThread example_raw ''Rosie: Response to ann'' (Inr example_thread),
      CreateTask example_thread,
      LogMention (set_channel_id 77 (discord_message_to_generic_message example_raw)),
      Wait [ResponseTask example_raw False example_thread],
      GetThrottleMessageId 10,
      Generate 1 ([], None) False None (Inr ''prompt''),
      LogRequestArrived ''prompt'',
      RequestBySentence ''prompt'',
      Next (Inr (Some ''Hello.'')),
      Send example_thread ''Hello.''
        (Inr (Message 211 example_bot_user ''Hello.'' 1 example_thread [] None)),
      LogMessage 10 (discord_message_to_generic_message
        (Message 211 example_bot_user ''Hello.'' 1 example_thread [] None)),
      LogResponsePart,
      Next (Inr None),
      WriteToLog ''Response to ann done!  '',
      LogResponseSuccess \<lparr>prompt = ''prompt'', parts = 1\<rparr>]"
  by (simp add: handler_defs example_defs run_defs)

theorem reply_target_witness:
  "wants_thread example_raw example_bot
   \<and> events_since example_bot
       (snd (snd (handle_message (example_env True [''Hello.'']) example_raw example_bot))) ! 2
     = CreateThread example_raw ''Rosie: Response to ann'' (Inr example_thread)
   \<and> events_since example_bot
       (snd (snd (handle_message (example_env True [''Hello.'']) example_raw example_bot))) ! 11
     = Send example_thread ''Hello.''
        (Inr (Message 211 example_bot_user ''Hello.'' 1 example_thread [] None))
   \<and> send_response (example_env True [''Hello.''])
        (discord_message_to_generic_message example_raw) example_raw False example_bot
     = (Inr (Some (ResponseTask example_raw False example_thread), Some example_thread),
        example_bot\<lparr>trace := trace example_bot
          @ [CreateThread example_raw ''Rosie: Response to ann'' (Inr example_thread),
             CreateTask example_thread]\<rparr>)"
proof -
  have w: "wants_thread example_raw example_bot"
    by (simp add: wants_thread_def example_defs)
  have p: "create_public_threads
       (permissions_for (example_env True [''Hello.'']) (trace example_bot)
          (msg_channel example_raw) (msg_author example_raw))"
    by (simp add: example_env_def)
  have c: "create_thread (example_env True [''Hello.'']) (trace example_bot) example_raw
       (ai_name example_bot @ '': Response to '' @ user_name (msg_author example_raw))
     = Inr example_thread"
    by (simp add: example_env_def)
  from reply_target [of example_raw example_bot "example_env True [''Hello.'']"
                        "discord_message_to_generic_message example_raw" False example_thread]
       w p c
  have "send_response (example_env True [''Hello.''])
        (discord_message_to_generic_message example_raw) example_raw False example_bot
     = (Inr (Some (ResponseTask example_raw False example_thread), Some example_thread),
        example_bot\<lparr>trace := trace example_bot
          @ [CreateThread example_raw
               (ai_name example_bot @ '': Response to '' @ user_name (msg_author example_raw))
               (Inr example_thread),
             CreateTask example_thread]\<rparr>)"
    by blast
  moreover have "ai_name example_bot @ '': Response to '' @ user_name (msg_author example_raw)
      = ''Rosie: Response to ann''"
    by (simp add: example_defs)
  ultimately show ?thesis using w unfolding example_run by simp
qed

text \<open>
  C7. Handling one message leaves the message object as the normalizer made it, except
  that the channel id of a \<^verbatim>\<open>ChannelMessage\<close> may be replaced, by the one assignment of
  the handler: the object changes only when the message was a summon and a thread was
  created for the reply, and then it is the normalized message with the id of that
  thread as channel id; nothing but the channel id differs. The handler registers at
  most one mention with the gate, and it registers the message object as it leaves it:
  when the channel id was rewritten, the mention is logged with the thread's id.
\<close>

theorem channel_id_rewrite:
  fixes env raw self
  defines "m \<equiv> discord_message_to_generic_message raw"
  defines "H \<equiv> handle_message env raw self"
  defines "evs \<equiv> events_since self (snd (snd H))"
  shows "(fst H = m
          \<or> (\<exists>th. snd (should_reply_to_message env (trace self) (ai_user_id self) m)
                \<and> ch_type th = Thread
                \<and> CreateThread raw
                     (ai_name self @ '': Response to '' @ user_name (msg_author raw)) (Inr th)
                     \<in> set evs
                \<and> fst H = set_channel_id (ch_id th) m))
       \<and> args (fst H) = args m
       \<and> (\<forall>c ms a. m = ChannelMessage c ms a \<longrightarrow> (\<exists>c'. fst H = ChannelMessage c' ms a))
       \<and> (\<not> isinstance_ChannelMessage m \<longrightarrow> fst H = m)
       \<and> (filter is_log_mention evs = [] \<or> filter is_log_mention evs = [LogMention (fst H)])
       \<and> (fst H \<noteq> m \<longrightarrow> filter is_log_mention evs = [LogMention (fst H)])"
proof -
  let ?name = "ai_name self @ '': Response to '' @ user_name (msg_author raw)"
  have name: "thread_name raw self = ?name" by (simp add: thread_name_def)
  obtain own tev where split:
    "snd (snd (snd (on_message env raw self))) = self\<lparr>trace := trace self @ own\<rparr>"
    "handle_message env raw self
       = (fst (on_message env raw self), fst (snd (on_message env raw self)),
          self\<lparr>trace := trace self @ own @ tev\<rparr>)"
    "\<forall>e \<in> set tev. \<not> is_handler_event e
        \<and> (\<forall>c s r. e = Send c s r \<longrightarrow>
              c \<in> task_channel ` set (fst (snd (snd (on_message env raw self)))))"
    by (rule handle_message_split)
  from on_message_summary [of env raw self, folded m_def]
  obtain own2 where own2:
    "snd (snd (snd (on_message env raw self))) = self\<lparr>trace := trace self @ own2\<rparr>"
    "fst (on_message env raw self) = m
         \<or> (\<exists>th. snd (should_reply_to_message env (trace self) (ai_user_id self) m)
               \<and> ch_type th = Thread
               \<and> CreateThread raw (thread_name raw self) (Inr th) \<in> set own2
               \<and> fst (on_message env raw self) = set_channel_id (ch_id th) m)"
    "filter is_log_mention own2 = []
       \<or> filter is_log_mention own2 = [LogMention (fst (on_message env raw self))]"
    "fst (on_message env raw self) \<noteq> m \<longrightarrow>
       filter is_log_mention own2 = [LogMention (fst (on_message env raw self))]"
    by blast
  have "self\<lparr>trace := trace self @ own\<rparr> = self\<lparr>trace := trace self @ own2\<rparr>"
    using split(1) own2(1) by simp
  then have "trace (self\<lparr>trace := trace self @ own\<rparr>)
               = trace (self\<lparr>trace := trace self @ own2\<rparr>)" by (rule arg_cong)
  then have same: "own2 = own" by simp
  note own = own2(2-4) [unfolded same name]
  have fstH: "fst H = fst (on_message env raw self)" unfolding H_def split(2) by simp
  have evs: "evs = own @ tev" unfolding evs_def H_def split(2) by simp
  have tev_none: "filter is_log_mention tev = []"
    using split(3) log_mention_is_handler by (intro filter_none) blast
  have mentions: "filter is_log_mention evs = filter is_log_mention own"
    unfolding evs using tev_none by simp
  have a: "fst H = m
          \<or> (\<exists>th. snd (should_reply_to_message env (trace self) (ai_user_id self) m)
                \<and> ch_type th = Thread
                \<and> CreateThread raw ?name (Inr th) \<in> set evs
                \<and> fst H = set_channel_id (ch_id th) m)"
    using own(1) unfolding fstH evs by auto
  then obtain v where v: "fst H = m \<or> fst H = set_channel_id v m" by blast
  have b: "args (fst H) = args m" using v by (cases m) auto
  have c: "\<forall>c ms a. m = ChannelMessage c ms a \<longrightarrow> (\<exists>c'. fst H = ChannelMessage c' ms a)"
    using v by auto
  have d: "\<not> isinstance_ChannelMessage m \<longrightarrow> fst H = m"
    using v by (cases m) (auto simp: isinstance_ChannelMessage_def)
  have e: "filter is_log_mention evs = [] \<or> filter is_log_mention evs = [LogMention (fst H)]"
    unfolding mentions fstH by (rule own(2))
  have f: "fst H \<noteq> m \<longrightarrow> filter is_log_mention evs = [LogMention (fst H)]"
    unfolding mentions fstH by (rule own(3))
  show ?thesis by (intro conjI a b c d e f)
qed

theorem channel_id_rewrite_witness:
  "fst (handle_message (example_env True [''Hello.'']) example_raw example_bot)
     = ChannelMessage 77 []
         \<lparr>author_id = 5, author_name = ''ann'', message_id = 100, body_text = ''hi Rosie'',
            author_is_bot = False, send_timestamp = 0\<rparr>
   \<and> discord_message_to_generic_message example_raw
     = ChannelMessage 10 []
         \<lparr>author_id = 5, author_name = ''ann'', message_id = 100, body_text = ''hi Rosie'',
            author_is_bot = False, send_timestamp = 0\<rparr>
   \<and> filter is_log_mention (events_since example_bot
       (snd (snd (handle_message (example_env True [''Hello.'']) example_raw example_bot))))
     = [LogMention (ChannelMessage 77 []
         \<lparr>author_id = 5, author_name = ''ann'', message_id = 100, body_text = ''hi Rosie'',
            author_is_bot = False, send_timestamp = 0\<rparr>)]"
proof -
  have n: "discord_message_to_generic_message example_raw
     = ChannelMessage 10 []
         \<lparr>author_id = 5, author_name = ''ann'', message_id = 100, body_text = ''hi Rosie'',
            author_is_bot = False, send_timestamp = 0\<rparr>"
    by (simp add: example_defs run_defs)
  have h: "fst (handle_message (example_env True [''Hello.'']) example_raw example_bot)
     = ChannelMessage 77 []
         \<lparr>author_id = 5, author_name = ''ann'', message_id = 100, body_text = ''hi Rosie'',
            author_is_bot = False, send_timestamp = 0\<rparr>"
    by (simp add: handler_defs example_defs run_defs split: prod.splits)
  from channel_id_rewrite [of "example_env True [''Hello.'']" example_raw example_bot]
  have "fst (handle_message (example_env True [''Hello.'']) example_raw example_bot)
          \<noteq> discord_message_to_generic_message example_raw \<longrightarrow>
        filter is_log_mention (events_since example_bot
          (snd (snd (handle_message (example_env True [''Hello.'']) example_raw example_bot))))
        = [LogMention (fst (handle_message (example_env True [''Hello.'']) example_raw
             example_bot))]"
    by blast
  then show ?thesis unfolding h n by simp
qed

end
